theory Spec2Isabelle
  imports Main "HOL-Library.Word"
begin

section \<open>The validator coordinator of ethvalidator/coordinator.go\<close>

text \<open>
  The coordinator is a set of goroutines that own their state and talk over channels.
  Each owner loop is embedded as a step function on the state it owns, indexed by the
  event its \<open>select\<close> (or channel receive) delivers; each round protocol is embedded as
  a function from the answers of its collaborators (the Bot, the signer, the followers)
  to the list of calls and broadcasts it makes and to what it returns.
  Hashes, addresses and message payloads are opaque to this file and are modelled by
  natural numbers; \<open>NewHashBuf\<close> and \<open>NewHashFromBuf\<close>, which only change the
  representation of a hash, are the identity.
\<close>

type_synonym digest = nat
type_synonym address = nat
type_synonym message = nat
type_synonym error = string

subsection \<open>Message ingress queue\<close>

record OffchainMessage =
  om_Message :: message
  om_Signature :: "8 word list"

text \<open>
  The four methods of \<open>MessageProcessingQueue\<close> put a value on the one untyped channel
  \<open>requests\<close>; the type switch of \<open>run\<close> dispatches on what arrived. \<open>OtherReq\<close>
  stands for a value of any other dynamic type (the \<open>default\<close> branch).
\<close>

datatype mpq_request =
    FetchReq
  | ReturnReq "OffchainMessage list"
  | SendReq OffchainMessage
  | HasMessagesReq
  | OtherReq

datatype mpq_reply =
    FetchReply "OffchainMessage list"
  | HasMessagesReply bool

text \<open>
  One iteration of the loop of \<open>run\<close> on the field \<open>queuedMessages\<close>: the new queue
  and what was sent on the reply channel carried by the request. \<open>None\<close> is
  \<open>log.Fatalf\<close>, which ends the process.
\<close>

fun mpq_step :: "OffchainMessage list \<Rightarrow> mpq_request \<Rightarrow> (OffchainMessage list \<times> mpq_reply list) option" where
  "mpq_step queuedMessages FetchReq = Some ([], [FetchReply queuedMessages])"
| "mpq_step queuedMessages (ReturnReq request) = Some (request @ queuedMessages, [])"
| "mpq_step queuedMessages (SendReq request) = Some (queuedMessages @ [request], [])"
| "mpq_step queuedMessages HasMessagesReq = Some (queuedMessages, [HasMessagesReply (length queuedMessages > 0)])"
| "mpq_step queuedMessages OtherReq = None"

text \<open>The loop of \<open>run\<close> over the requests in their order of arrival on the channel.\<close>

fun run :: "OffchainMessage list \<Rightarrow> mpq_request list \<Rightarrow> (OffchainMessage list \<times> mpq_reply list) option" where
  "run queuedMessages [] = Some (queuedMessages, [])"
| "run queuedMessages (request # rest) =
     (case mpq_step queuedMessages request of
        None \<Rightarrow> None
      | Some (q, out) \<Rightarrow>
          (case run q rest of
             None \<Rightarrow> None
           | Some (q', out') \<Rightarrow> Some (q', out @ out')))"

subsection \<open>Wire records and the validator\<close>

text \<open>
  \<open>valmessage.Signature\<close> holds \<open>V\<close> as a \<open>uint8\<close>, the protobuf \<open>Signature\<close> as a
  \<open>uint32\<close>; the coordinator converts with \<open>uint8(...)\<close> and \<open>uint32(...)\<close>.
\<close>

record Signature =
  sig_R :: digest
  sig_S :: digest
  sig_V :: "8 word"

record WireSignature =
  ws_R :: digest
  ws_S :: digest
  ws_V :: "32 word"

definition zeroSignature :: Signature where
  "zeroSignature = \<lparr>sig_R = 0, sig_S = 0, sig_V = 0\<rparr>"

definition fromWire :: "WireSignature \<Rightarrow> Signature" where
  "fromWire s = \<lparr>sig_R = ws_R s, sig_S = ws_S s, sig_V = ucast (ws_V s)\<rparr>"

definition toWire :: "Signature \<Rightarrow> WireSignature" where
  "toWire s = \<lparr>ws_R = sig_R s, ws_S = sig_S s, ws_V = ucast (sig_V s)\<rparr>"

text \<open>
  The \<open>oneof\<close> of a follower response: the variant the coordinator's type assertion
  expects (\<open>FollowerResponse_Create\<close> or \<open>FollowerResponse_Unanimous\<close>), or anything
  else (another variant, or none). The signature field is a pointer and may be nil.
\<close>

datatype response_body =
    FollowerResponse_Create bool "WireSignature option"
  | FollowerResponse_Unanimous bool "WireSignature option" digest
  | FollowerResponse_Other

record FollowerResponse =
  fr_RequestId :: digest
  fr_Response :: response_body

record LabeledFollowerResponse =
  lfr_address :: address
  lfr_response :: FollowerResponse

record CreateVMValidatorRequest =
  cv_Config :: nat
  cv_VmId :: digest
  cv_VmState :: digest
  cv_ChallengeManagerNum :: nat

record SignedMessage =
  sm_Message :: message
  sm_Signature :: "8 word list"

record UnanimousAssertionValidatorRequest =
  ur_BeforeHash :: digest
  ur_BeforeInbox :: digest
  ur_SequenceNum :: "64 word"
  ur_TimeBounds :: nat
  ur_SignedMessages :: "SignedMessage list"

record UnanimousAssertionValidatorNotification =
  un_Accepted :: bool
  un_Signatures :: "WireSignature option list"

datatype request_body =
    ValidatorRequest_Create CreateVMValidatorRequest
  | ValidatorRequest_CreateNotification bool
  | ValidatorRequest_Unanimous UnanimousAssertionValidatorRequest
  | ValidatorRequest_UnanimousNotification UnanimousAssertionValidatorNotification

record ValidatorRequest =
  vr_RequestId :: "digest option"
  vr_Request :: request_body

text \<open>The records of package \<open>valmessage\<close> and \<open>protocol\<close> the coordinator reads.\<close>

record UnanimousRequestData =
  rd_BeforeHash :: digest
  rd_BeforeInbox :: digest
  rd_SequenceNum :: "64 word"
  rd_TimeBounds :: nat

record UnanimousRequest =
  rq_Data :: UnanimousRequestData
  rq_NewMessages :: "message list"

record Assertion =
  as_AfterHash :: digest
  as_OutMsgs :: "message list"

record UnanimousUpdateResults =
  uu_SequenceNum :: "64 word"
  uu_BeforeHash :: digest
  uu_TimeBounds :: nat
  uu_NewInboxHash :: digest
  uu_OriginalInboxHash :: digest
  uu_Assertion :: Assertion

text \<open>
  The part of \<open>EthValidator\<close> the coordinator reads. The Go map \<open>Validators\<close> from
  address to \<open>validatorInfo\<close> is an association list from address to \<open>indexNum\<close>;
  the client manager's \<open>validators\<close> is the same map.
\<close>

record EthValidator =
  Validators :: "(address \<times> nat) list"
  Address :: address
  VmId :: digest

text \<open>
  Modelled from the spec: \<open>ValidatorCount\<close>, a method of \<open>EthValidator\<close> defined outside
  this file, is the size N of the validator set, which is also \<open>len(m.validators)\<close>.
\<close>

definition ValidatorCount :: "EthValidator \<Rightarrow> int" where
  "ValidatorCount val = int (length (Validators val))"

text \<open>\<open>Validators[a].indexNum\<close>: a Go map yields the zero value for a missing key.\<close>

definition indexNum :: "(address \<times> nat) list \<Rightarrow> address \<Rightarrow> nat" where
  "indexNum vals a = (case map_of vals a of None \<Rightarrow> 0 | Some i \<Rightarrow> i)"

subsection \<open>Collaborators and observable actions\<close>

text \<open>
  What the collaborators answer during one round: the client manager on
  \<open>WaitForFollowers\<close>, the Bot on its channels, the signer and the hash functions, the
  followers and the timer as the events \<open>gatherSignatures\<close> receives, and the messages
  other goroutines \<open>Send\<close> to the ingress queue while the round runs. Where the code
  selects between a result channel and an error channel, \<open>Inl\<close> is the error channel.
\<close>

datatype gather_event = ResponseEv LabeledFollowerResponse | TimerEv

record env =
  WaitForFollowers :: bool
  RequestVMState :: "nat \<times> digest"
  CreateVMHash :: "CreateVMValidatorRequest \<Rightarrow> digest"
  Sign :: "digest \<Rightarrow> error + Signature"
  followerEvents :: "gather_event list"
  CreateVM :: "error option"
  InitiateUnanimousRequest_request :: "error + UnanimousRequest"
  InitiateUnanimousRequest_results :: "error + UnanimousUpdateResults"
  RequestHash :: "UnanimousRequest \<Rightarrow> digest"
  UnanimousAssertHash :: "64 word \<Rightarrow> digest \<Rightarrow> nat \<Rightarrow> digest \<Rightarrow> digest \<Rightarrow> Assertion \<Rightarrow> error + digest"
  ConfirmOffchainUnanimousAssertion :: "error option"
  CloseUnanimousAssertionRequest :: bool
  arrivals :: "OffchainMessage list"

text \<open>
  What a round does that others can see, in program order: requests handed to the
  client manager (\<open>SigRequest\<close> on \<open>sigRequestChan\<close>, \<open>Broadcast\<close> on \<open>broadcast\<close>, both
  of which reach every live follower) and calls into the Bot and the validator.
\<close>

datatype action =
    SigRequest ValidatorRequest digest
  | Broadcast ValidatorRequest
  | Bot_RequestVMState
  | Val_Sign digest
  | Val_CreateVM CreateVMValidatorRequest "Signature list"
  | Bot_InitiateUnanimousRequest nat "message list" bool
  | Val_UnanimousAssertHash "64 word" digest nat digest digest Assertion
  | Bot_ConfirmOffchainUnanimousAssertion UnanimousRequestData "Signature list"
  | Bot_CloseUnanimousAssertionRequest

text \<open>
  How a call ends: it returns, it panics (index out of range, nil dereference, failed
  type assertion, negative channel size), or it waits for ever on a channel.
\<close>

datatype 'a exec = Returns 'a | Panics | Blocks

datatype stop = StopPanic | StopError error

subsection \<open>gatherSignatures\<close>

text \<open>
  The \<open>for\<close>/\<open>select\<close> loop of \<open>gatherSignatures\<close> over the events it receives, with
  \<open>n = len(m.validators) - 1\<close>. The test after each event is
  \<open>len(responseList) == n || timedOut\<close>. \<open>None\<close>: the events ran out and the loop
  still waits.
\<close>

fun gatherLoop :: "int \<Rightarrow> LabeledFollowerResponse list \<Rightarrow> gather_event list \<Rightarrow> LabeledFollowerResponse list option" where
  "gatherLoop n responseList [] = None"
| "gatherLoop n responseList (ResponseEv response # evs) =
     (if int (length (responseList @ [response])) = n then Some (responseList @ [response])
      else gatherLoop n (responseList @ [response]) evs)"
| "gatherLoop n responseList (TimerEv # evs) = Some responseList"

text \<open>
  \<open>make(chan ..., len(m.validators)-1)\<close> panics on a negative size; then the request is
  put on \<open>sigRequestChan\<close> and the loop runs.
\<close>

definition gatherSignatures :: "int \<Rightarrow> ValidatorRequest \<Rightarrow> digest \<Rightarrow> gather_event list \<Rightarrow> action list \<times> LabeledFollowerResponse list exec" where
  "gatherSignatures nValidators request requestID evs =
     (if nValidators - 1 < 0 then ([], Panics)
      else ([SigRequest request requestID],
            case gatherLoop (nValidators - 1) [] evs of
              None \<Rightarrow> Blocks
            | Some responseList \<Rightarrow> Returns responseList))"

subsection \<open>createVMImpl\<close>

definition err_not_connected :: error where
  "err_not_connected = ''coordinator can only create VM when connected to all other validators''"

definition err_no_response :: error where
  "err_no_response = ''some Validators didn't respond''"

definition err_refused :: error where
  "err_refused = ''some Validators refused to sign''"

definition err_wrong_assertion :: error where
  "err_wrong_assertion = ''some Validators signed the wrong assertion''"

definition notifyCreate :: "bool \<Rightarrow> action" where
  "notifyCreate allSigned =
     Broadcast \<lparr>vr_RequestId = None, vr_Request = ValidatorRequest_CreateNotification allSigned\<rparr>"

text \<open>The loop of \<open>createVMImpl\<close> over the responses, writing into \<open>signatures\<close>.\<close>

fun createSignatures :: "(address \<times> nat) list \<Rightarrow> Signature list \<Rightarrow> LabeledFollowerResponse list \<Rightarrow> stop + Signature list" where
  "createSignatures vals signatures [] = Inr signatures"
| "createSignatures vals signatures (response # rest) =
     (case fr_Response (lfr_response response) of
        FollowerResponse_Create accepted sg \<Rightarrow>
          if \<not> accepted then Inl (StopError err_refused)
          else (case sg of
                  None \<Rightarrow> Inl StopPanic
                | Some s \<Rightarrow>
                    if indexNum vals (lfr_address response) < length signatures
                    then createSignatures vals
                           (signatures[indexNum vals (lfr_address response) := fromWire s]) rest
                    else Inl StopPanic)
      | FollowerResponse_Unanimous accepted sg h \<Rightarrow> Inl StopPanic
      | FollowerResponse_Other \<Rightarrow> Inl StopPanic)"

definition createData :: "EthValidator \<Rightarrow> env \<Rightarrow> CreateVMValidatorRequest" where
  "createData val env =
     \<lparr>cv_Config = fst (RequestVMState env), cv_VmId = VmId val,
      cv_VmState = snd (RequestVMState env), cv_ChallengeManagerNum = 0\<rparr>"

text \<open>
  \<open>createVMImpl\<close> from the signature assembly on: the coordinator signs, stores its
  signature at its own index, runs the loop and calls \<open>CreateVM\<close>, whose error it
  returns beside \<open>true\<close>.
\<close>

definition createFinish :: "EthValidator \<Rightarrow> env \<Rightarrow> LabeledFollowerResponse list \<Rightarrow> action list \<times> (bool \<times> error option) exec" where
  "createFinish val env responses =
     (let createHash = CreateVMHash env (createData val env);
          signatures = replicate (nat (ValidatorCount val)) zeroSignature;
          own = indexNum (Validators val) (Address val)
      in if \<not> own < length signatures then ([Val_Sign createHash], Panics)
         else (case Sign env createHash of
                 Inl err \<Rightarrow> ([Val_Sign createHash], Returns (False, Some err))
               | Inr sg \<Rightarrow>
                   (case createSignatures (Validators val) (signatures[own := sg]) responses of
                      Inl StopPanic \<Rightarrow> ([Val_Sign createHash], Panics)
                    | Inl (StopError err) \<Rightarrow> ([Val_Sign createHash], Returns (False, Some err))
                    | Inr signatures' \<Rightarrow>
                        ([Val_Sign createHash, Val_CreateVM (createData val env) signatures'],
                         Returns (True, CreateVM env)))))"

definition createVMImpl :: "EthValidator \<Rightarrow> env \<Rightarrow> action list \<times> (bool \<times> error option) exec" where
  "createVMImpl val env =
     (if \<not> WaitForFollowers env then ([], Returns (False, Some err_not_connected))
      else
        (case gatherSignatures (ValidatorCount val)
                \<lparr>vr_RequestId = None, vr_Request = ValidatorRequest_Create (createData val env)\<rparr>
                (CreateVMHash env (createData val env)) (followerEvents env) of
           (sent, Panics) \<Rightarrow> (Bot_RequestVMState # sent, Panics)
         | (sent, Blocks) \<Rightarrow> (Bot_RequestVMState # sent, Blocks)
         | (sent, Returns responses) \<Rightarrow>
             if int (length responses) \<noteq> ValidatorCount val - 1
             then (Bot_RequestVMState # sent @ [notifyCreate False],
                   Returns (False, Some err_no_response))
             else (case createFinish val env responses of
                     (tr, r) \<Rightarrow> (Bot_RequestVMState # sent @ tr, r))))"

subsection \<open>The unanimous round\<close>

text \<open>
  The loop that builds \<open>requestMessages\<close>: for the message at index \<open>i\<close> of
  \<open>unanRequest.NewMessages\<close> it reads \<open>queuedMessages[i].Signature\<close>. \<open>None\<close> is the
  index-out-of-range panic.
\<close>

fun buildRequestMessages :: "OffchainMessage list \<Rightarrow> nat \<Rightarrow> message list \<Rightarrow> SignedMessage list \<Rightarrow> SignedMessage list option" where
  "buildRequestMessages queuedMessages i [] requestMessages = Some requestMessages"
| "buildRequestMessages queuedMessages i (msg # rest) requestMessages =
     (if i < length queuedMessages
      then buildRequestMessages queuedMessages (Suc i) rest
             (requestMessages @
                [\<lparr>sm_Message = msg, sm_Signature = om_Signature (queuedMessages ! i)\<rparr>])
      else None)"

text \<open>
  The loop of \<open>_initiateUnanimousAssertionImpl\<close> over the responses, writing into
  \<open>signatures\<close> and \<open>rawSignatures\<close>.
\<close>

fun unanimousSignatures :: "(address \<times> nat) list \<Rightarrow> digest \<Rightarrow> Signature list \<Rightarrow> WireSignature option list \<Rightarrow> LabeledFollowerResponse list \<Rightarrow> stop + (Signature list \<times> WireSignature option list)" where
  "unanimousSignatures vals unanHash signatures rawSignatures [] = Inr (signatures, rawSignatures)"
| "unanimousSignatures vals unanHash signatures rawSignatures (response # rest) =
     (case fr_Response (lfr_response response) of
        FollowerResponse_Unanimous accepted sg assertionHash \<Rightarrow>
          if \<not> accepted then Inl (StopError err_refused)
          else if assertionHash \<noteq> unanHash then Inl (StopError err_wrong_assertion)
          else if \<not> indexNum vals (lfr_address response) < length rawSignatures then Inl StopPanic
          else (case sg of
                  None \<Rightarrow> Inl StopPanic
                | Some s \<Rightarrow>
                    if indexNum vals (lfr_address response) < length signatures
                    then unanimousSignatures vals unanHash
                           (signatures[indexNum vals (lfr_address response) := fromWire s])
                           (rawSignatures[indexNum vals (lfr_address response) := Some s]) rest
                    else Inl StopPanic)
      | FollowerResponse_Create accepted sg \<Rightarrow> Inl StopPanic
      | FollowerResponse_Other \<Rightarrow> Inl StopPanic)"

definition notifyUnanimous :: "digest \<Rightarrow> UnanimousAssertionValidatorNotification \<Rightarrow> action" where
  "notifyUnanimous hashId msg =
     Broadcast \<lparr>vr_RequestId = Some hashId, vr_Request = ValidatorRequest_UnanimousNotification msg\<rparr>"

definition rejected :: "digest \<Rightarrow> action" where
  "rejected hashId = notifyUnanimous hashId \<lparr>un_Accepted = False, un_Signatures = []\<rparr>"

definition unanimousRequest :: "UnanimousRequest \<Rightarrow> SignedMessage list \<Rightarrow> UnanimousAssertionValidatorRequest" where
  "unanimousRequest unanRequest requestMessages =
     \<lparr>ur_BeforeHash = rd_BeforeHash (rq_Data unanRequest),
      ur_BeforeInbox = rd_BeforeInbox (rq_Data unanRequest),
      ur_SequenceNum = rd_SequenceNum (rq_Data unanRequest),
      ur_TimeBounds = rd_TimeBounds (rq_Data unanRequest),
      ur_SignedMessages = requestMessages\<rparr>"

text \<open>
  \<open>_initiateUnanimousAssertionImpl\<close> in three stages. The last: from the check of the
  number of responses to the return, given the coordinator's hash and signature.
\<close>

definition unanimousFinish :: "EthValidator \<Rightarrow> env \<Rightarrow> UnanimousRequest \<Rightarrow> digest \<Rightarrow> UnanimousUpdateResults \<Rightarrow> digest \<Rightarrow> Signature \<Rightarrow> LabeledFollowerResponse list \<Rightarrow> action list \<times> (bool \<times> error option) exec" where
  "unanimousFinish val env unanRequest hashId unanUpdate unanHash sg responses =
     (if int (length responses) \<noteq> ValidatorCount val - 1
      then ([rejected hashId], Returns (False, Some err_no_response))
      else if \<not> indexNum (Validators val) (Address val) < nat (ValidatorCount val) then ([], Panics)
      else
        (case unanimousSignatures (Validators val) unanHash
                ((replicate (nat (ValidatorCount val)) zeroSignature)
                   [indexNum (Validators val) (Address val) := sg])
                ((replicate (nat (ValidatorCount val)) None)
                   [indexNum (Validators val) (Address val) := Some (toWire sg)])
                responses of
           Inl StopPanic \<Rightarrow> ([], Panics)
         | Inl (StopError err) \<Rightarrow> ([rejected hashId], Returns (False, Some err))
         | Inr (signatures, rawSignatures) \<Rightarrow>
             ([notifyUnanimous hashId \<lparr>un_Accepted = True, un_Signatures = rawSignatures\<rparr>,
               Bot_ConfirmOffchainUnanimousAssertion (rq_Data unanRequest) signatures],
              (case ConfirmOffchainUnanimousAssertion env of
                 Some err \<Rightarrow> Returns (False, Some err)
               | None \<Rightarrow> Returns (uu_SequenceNum unanUpdate = - 1, None)))))"

text \<open>
  The stage before: the Bot's results or its error, the override of the sequence
  number (\<open>math.MaxUint64\<close> is the word \<open>- 1\<close>), the hash, the signature, and the
  receive from \<open>responsesChan\<close> of what the gathering goroutine returned.
\<close>

definition forceOnchain :: "UnanimousUpdateResults \<Rightarrow> UnanimousUpdateResults" where
  "forceOnchain unanUpdate =
     (if length (as_OutMsgs (uu_Assertion unanUpdate)) > 0
      then unanUpdate\<lparr>uu_SequenceNum := - 1\<rparr> else unanUpdate)"

definition hashCall :: "UnanimousUpdateResults \<Rightarrow> action" where
  "hashCall u =
     Val_UnanimousAssertHash (uu_SequenceNum u) (uu_BeforeHash u) (uu_TimeBounds u)
       (uu_NewInboxHash u) (uu_OriginalInboxHash u) (uu_Assertion u)"

definition unanimousAfterRequest :: "EthValidator \<Rightarrow> env \<Rightarrow> UnanimousRequest \<Rightarrow> digest \<Rightarrow> LabeledFollowerResponse list exec \<Rightarrow> action list \<times> (bool \<times> error option) exec" where
  "unanimousAfterRequest val env unanRequest hashId gathered =
     (case InitiateUnanimousRequest_results env of
        Inl err \<Rightarrow> ([rejected hashId], Returns (False, Some err))
      | Inr unanUpdate0 \<Rightarrow>
          (case UnanimousAssertHash env
                  (uu_SequenceNum (forceOnchain unanUpdate0)) (uu_BeforeHash (forceOnchain unanUpdate0))
                  (uu_TimeBounds (forceOnchain unanUpdate0)) (uu_NewInboxHash (forceOnchain unanUpdate0))
                  (uu_OriginalInboxHash (forceOnchain unanUpdate0))
                  (uu_Assertion (forceOnchain unanUpdate0)) of
             Inl err \<Rightarrow>
               ([hashCall (forceOnchain unanUpdate0), rejected hashId], Returns (False, Some err))
           | Inr unanHash \<Rightarrow>
               (case Sign env unanHash of
                  Inl err \<Rightarrow>
                    ([hashCall (forceOnchain unanUpdate0), Val_Sign unanHash, rejected hashId],
                     Returns (False, Some err))
                | Inr sg \<Rightarrow>
                    (case gathered of
                       Panics \<Rightarrow> ([hashCall (forceOnchain unanUpdate0), Val_Sign unanHash], Panics)
                     | Blocks \<Rightarrow> ([hashCall (forceOnchain unanUpdate0), Val_Sign unanHash], Blocks)
                     | Returns responses \<Rightarrow>
                         (case unanimousFinish val env unanRequest hashId
                                 (forceOnchain unanUpdate0) unanHash sg responses of
                            (tr, r) \<Rightarrow>
                              (hashCall (forceOnchain unanUpdate0) # Val_Sign unanHash # tr, r))))))"

text \<open>
  The whole of \<open>_initiateUnanimousAssertionImpl\<close>. The gathering runs in a goroutine of
  its own: its request to the client manager is listed where the goroutine starts, and
  its panic on a negative channel size ends the process.
\<close>

definition inner_initiateUnanimousAssertionImpl :: "EthValidator \<Rightarrow> env \<Rightarrow> OffchainMessage list \<Rightarrow> bool \<Rightarrow> action list \<times> (bool \<times> error option) exec" where
  "inner_initiateUnanimousAssertionImpl val env queuedMessages forceFinal =
     (case InitiateUnanimousRequest_request env of
        Inl err \<Rightarrow>
          ([Bot_InitiateUnanimousRequest 10000 (map om_Message queuedMessages) forceFinal],
           Returns (False, Some err))
      | Inr unanRequest \<Rightarrow>
          (case buildRequestMessages queuedMessages 0 (rq_NewMessages unanRequest) [] of
             None \<Rightarrow>
               ([Bot_InitiateUnanimousRequest 10000 (map om_Message queuedMessages) forceFinal],
                Panics)
           | Some requestMessages \<Rightarrow>
               (case gatherSignatures (ValidatorCount val)
                       \<lparr>vr_RequestId = Some (RequestHash env unanRequest),
                        vr_Request = ValidatorRequest_Unanimous
                          (unanimousRequest unanRequest requestMessages)\<rparr>
                       (RequestHash env unanRequest) (followerEvents env) of
                  (sent, Panics) \<Rightarrow>
                    (Bot_InitiateUnanimousRequest 10000 (map om_Message queuedMessages) forceFinal
                       # sent, Panics)
                | (sent, gathered) \<Rightarrow>
                    (case unanimousAfterRequest val env unanRequest
                            (RequestHash env unanRequest) gathered of
                       (tr, r) \<Rightarrow>
                         (Bot_InitiateUnanimousRequest 10000 (map om_Message queuedMessages)
                            forceFinal # sent @ tr, r)))))"

text \<open>
  The queue after the requests a round puts on its channel. The round only fetches,
  returns, or (through other goroutines) sends, and none of these ends the process.
\<close>

definition queue_after :: "OffchainMessage list \<Rightarrow> mpq_request list \<Rightarrow> OffchainMessage list" where
  "queue_after q rs = (case run q rs of Some (q', out) \<Rightarrow> q' | None \<Rightarrow> q)"

text \<open>
  \<open>initiateUnanimousAssertionImpl\<close> on the ingress queue \<open>queue\<close>: what it does, what it
  returns, and the queue it leaves. \<open>Fetch\<close> hands it the whole queue; while the round
  runs the messages \<open>arrivals env\<close> are sent; \<open>Return\<close> follows on an error.
\<close>

definition initiateUnanimousAssertionImpl :: "EthValidator \<Rightarrow> env \<Rightarrow> OffchainMessage list \<Rightarrow> bool \<Rightarrow> action list \<times> (bool \<times> error option) exec \<times> OffchainMessage list" where
  "initiateUnanimousAssertionImpl val env queue forceFinal =
     (case inner_initiateUnanimousAssertionImpl val env queue forceFinal of
        (tr, Panics) \<Rightarrow> (tr, Panics, queue_after queue (FetchReq # map SendReq (arrivals env)))
      | (tr, Blocks) \<Rightarrow> (tr, Blocks, queue_after queue (FetchReq # map SendReq (arrivals env)))
      | (tr, Returns (isFinal, Some err)) \<Rightarrow>
          (tr, Returns (False, Some err),
           queue_after queue (FetchReq # map SendReq (arrivals env) @ [ReturnReq queue]))
      | (tr, Returns (isFinal, None)) \<Rightarrow>
          if isFinal
          then (tr @ [Bot_CloseUnanimousAssertionRequest],
                Returns (CloseUnanimousAssertionRequest env, None),
                queue_after queue (FetchReq # map SendReq (arrivals env)))
          else (tr, Returns (True, None),
                queue_after queue (FetchReq # map SendReq (arrivals env))))"

subsection \<open>The client manager's loop\<close>

text \<open>
  The state \<open>ClientManager.Run\<close> owns. Clients, wait channels and response channels
  are pointers in the source and numbers here. \<open>cm_clients\<close> lists the keys of the map
  \<open>clients\<close>; \<open>cm_ToClient\<close> and \<open>cm_closed\<close> give what each client's \<open>ToClient\<close>
  channel (capacity 128) holds and whether it is closed; \<open>cm_broadcast\<close> is what the
  channel \<open>broadcast\<close> (capacity 10) holds; \<open>cm_signalled\<close> lists the wait channels that
  were sent \<open>true\<close>; \<open>cm_responses\<close> is the map \<open>responses\<close> from request digest to
  response channel, and \<open>cm_sinks\<close> what each response channel holds.
\<close>

record ClientManager =
  cm_clients :: "nat list"
  cm_ToClient :: "nat \<Rightarrow> ValidatorRequest list"
  cm_closed :: "nat \<Rightarrow> bool"
  cm_broadcast :: "ValidatorRequest list"
  cm_waitingChans :: "nat list"
  cm_signalled :: "nat list"
  cm_responses :: "digest \<rightharpoonup> nat"
  cm_sinks :: "nat \<Rightarrow> LabeledFollowerResponse list"

definition NewClientManager :: ClientManager where
  "NewClientManager =
     \<lparr>cm_clients = [], cm_ToClient = (\<lambda>c. []), cm_closed = (\<lambda>c. False), cm_broadcast = [],
      cm_waitingChans = [], cm_signalled = [], cm_responses = Map.empty, cm_sinks = (\<lambda>c. [])\<rparr>"

text \<open>
  The case of the \<open>select\<close> that fires, with the value received. \<open>SigRequestEv\<close>
  carries the fields of a \<open>GatherSignatureRequest\<close>: request, response channel, digest.
  \<open>BroadcastEv\<close> receives the head of \<open>broadcast\<close>.
\<close>

datatype cm_event =
    WaitRequestEv nat
  | AggResponseEv LabeledFollowerResponse
  | SigRequestEv ValidatorRequest nat digest
  | RegisterEv nat
  | UnregisterEv nat
  | BroadcastEv

text \<open>
  How the handler of an event ends: the loop goes on in a new state; the loop waits for
  ever (a send on a nil channel, or a send on \<open>broadcast\<close>, which only this loop
  receives from, while it is full); the loop waits until the receiver of a full
  response channel takes a value; a send on a closed channel or a second \<open>close\<close>
  panics; or the case cannot fire because its channel is empty.
\<close>

datatype cm_result =
    Next ClientManager
  | BlocksForever
  | WaitsForReceiver nat
  | CmPanics
  | NotReady

text \<open>
  The non-blocking sends of the broadcast case, client by client: a client whose buffer
  is full is closed and deleted. \<open>None\<close> is the panic of a send on a closed channel.
\<close>

fun broadcastTo :: "ValidatorRequest \<Rightarrow> nat list \<Rightarrow> ClientManager \<Rightarrow> ClientManager option" where
  "broadcastTo message [] m = Some m"
| "broadcastTo message (client # rest) m =
     (if cm_closed m client then None
      else if length (cm_ToClient m client) < 128
      then broadcastTo message rest
             (m\<lparr>cm_ToClient := (cm_ToClient m)(client := cm_ToClient m client @ [message])\<rparr>)
      else broadcastTo message rest
             (m\<lparr>cm_closed := (cm_closed m)(client := True),
                cm_clients := removeAll client (cm_clients m)\<rparr>))"

text \<open>
  One iteration of the loop of \<open>Run\<close>, with \<open>n = len(m.validators)\<close>; response channels
  are made by \<open>gatherSignatures\<close> with capacity \<open>n - 1\<close>.
\<close>

fun cm_step :: "int \<Rightarrow> ClientManager \<Rightarrow> cm_event \<Rightarrow> cm_result" where
  "cm_step n m (WaitRequestEv waitRequest) =
     (if int (length (cm_clients m)) = n - 1
      then Next (m\<lparr>cm_signalled := cm_signalled m @ [waitRequest]\<rparr>)
      else Next (m\<lparr>cm_waitingChans := List.insert waitRequest (cm_waitingChans m)\<rparr>))"
| "cm_step n m (AggResponseEv response) =
     (case cm_responses m (fr_RequestId (lfr_response response)) of
        None \<Rightarrow> BlocksForever
      | Some ch \<Rightarrow>
          if int (length (cm_sinks m ch)) < n - 1
          then Next (m\<lparr>cm_sinks := (cm_sinks m)(ch := cm_sinks m ch @ [response])\<rparr>)
          else WaitsForReceiver ch)"
| "cm_step n m (SigRequestEv request responseChan requestID) =
     (if length (cm_broadcast m) < 10
      then Next (m\<lparr>cm_broadcast := cm_broadcast m @ [request],
                    cm_responses := (cm_responses m)(requestID \<mapsto> responseChan)\<rparr>)
      else BlocksForever)"
| "cm_step n m (RegisterEv client) =
     (if int (length (List.insert client (cm_clients m))) = n - 1
      then Next (m\<lparr>cm_clients := List.insert client (cm_clients m),
                    cm_signalled := cm_signalled m @ cm_waitingChans m,
                    cm_waitingChans := []\<rparr>)
      else Next (m\<lparr>cm_clients := List.insert client (cm_clients m)\<rparr>))"
| "cm_step n m (UnregisterEv client) =
     (if client \<in> set (cm_clients m)
      then (if cm_closed m client then CmPanics
            else Next (m\<lparr>cm_clients := removeAll client (cm_clients m),
                          cm_closed := (cm_closed m)(client := True)\<rparr>))
      else Next m)"
| "cm_step n m BroadcastEv =
     (case cm_broadcast m of
        [] \<Rightarrow> NotReady
      | message # rest \<Rightarrow>
          (case broadcastTo message (cm_clients m) (m\<lparr>cm_broadcast := rest\<rparr>) of
             None \<Rightarrow> CmPanics
           | Some m' \<Rightarrow> Next m'))"

text \<open>The loop of \<open>Run\<close> over a sequence of events; it stops where a handler does not return.\<close>

fun Run :: "int \<Rightarrow> ClientManager \<Rightarrow> cm_event list \<Rightarrow> cm_result" where
  "Run n m [] = Next m"
| "Run n m (ev # evs) =
     (case cm_step n m ev of
        Next m' \<Rightarrow> Run n m' evs
      | BlocksForever \<Rightarrow> BlocksForever
      | WaitsForReceiver ch \<Rightarrow> WaitsForReceiver ch
      | CmPanics \<Rightarrow> CmPanics
      | NotReady \<Rightarrow> NotReady)"

subsection \<open>A validator set and collaborators to run the rounds on\<close>

text \<open>
  Three validators with indices 0, 1 and 2; the coordinator is the first. In \<open>env0\<close>
  every collaborator answers without error, the Bot returns the two queued messages in
  their order and reports no outgoing message, and no follower event is listed yet.
\<close>

definition val3 :: EthValidator where
  "val3 = \<lparr>Validators = [(10, 0), (11, 1), (12, 2)], Address = 10, VmId = 7\<rparr>"

definition ownSig :: Signature where
  "ownSig = \<lparr>sig_R = 1, sig_S = 2, sig_V = 27\<rparr>"

definition sigA :: WireSignature where
  "sigA = \<lparr>ws_R = 21, ws_S = 22, ws_V = 27\<rparr>"

definition sigB :: WireSignature where
  "sigB = \<lparr>ws_R = 31, ws_S = 32, ws_V = 28\<rparr>"

definition createResponse :: "address \<Rightarrow> bool \<Rightarrow> WireSignature \<Rightarrow> LabeledFollowerResponse" where
  "createResponse a accepted s =
     \<lparr>lfr_address = a,
      lfr_response = \<lparr>fr_RequestId = 5, fr_Response = FollowerResponse_Create accepted (Some s)\<rparr>\<rparr>"

definition unanimousResponse :: "address \<Rightarrow> bool \<Rightarrow> WireSignature \<Rightarrow> digest \<Rightarrow> LabeledFollowerResponse" where
  "unanimousResponse a accepted s h =
     \<lparr>lfr_address = a,
      lfr_response = \<lparr>fr_RequestId = 6, fr_Response = FollowerResponse_Unanimous accepted (Some s) h\<rparr>\<rparr>"

text \<open>The request \<open>createVMImpl\<close> gathers signatures for, under \<open>val3\<close> and \<open>env0\<close>.\<close>

definition createRequest3 :: ValidatorRequest where
  "createRequest3 =
     \<lparr>vr_RequestId = None,
      vr_Request = ValidatorRequest_Create
        \<lparr>cv_Config = 3, cv_VmId = 7, cv_VmState = 4, cv_ChallengeManagerNum = 0\<rparr>\<rparr>"

definition queue2 :: "OffchainMessage list" where
  "queue2 = [\<lparr>om_Message = 40, om_Signature = [1]\<rparr>, \<lparr>om_Message = 41, om_Signature = [2]\<rparr>]"

definition env0 :: env where
  "env0 =
     \<lparr>WaitForFollowers = True,
      RequestVMState = (3, 4),
      CreateVMHash = (\<lambda>d. 5),
      Sign = (\<lambda>d. Inr ownSig),
      followerEvents = [],
      CreateVM = None,
      InitiateUnanimousRequest_request =
        Inr \<lparr>rq_Data = \<lparr>rd_BeforeHash = 1, rd_BeforeInbox = 2, rd_SequenceNum = 0, rd_TimeBounds = 3\<rparr>,
             rq_NewMessages = [40, 41]\<rparr>,
      InitiateUnanimousRequest_results =
        Inr \<lparr>uu_SequenceNum = 0, uu_BeforeHash = 1, uu_TimeBounds = 3, uu_NewInboxHash = 8,
             uu_OriginalInboxHash = 2, uu_Assertion = \<lparr>as_AfterHash = 11, as_OutMsgs = []\<rparr>\<rparr>,
      RequestHash = (\<lambda>r. 6),
      UnanimousAssertHash = (\<lambda>seq bh tb ni oi a. Inr (if seq = - 1 then 9 else 8)),
      ConfirmOffchainUnanimousAssertion = None,
      CloseUnanimousAssertionRequest = True,
      arrivals = []\<rparr>"

section \<open>Properties\<close>

subsection \<open>The ingress queue\<close>

lemma run_append:
  "run q (xs @ ys) =
     (case run q xs of
        None \<Rightarrow> None
      | Some (q1, out1) \<Rightarrow>
          (case run q1 ys of
             None \<Rightarrow> None
           | Some (q2, out2) \<Rightarrow> Some (q2, out1 @ out2)))"
  by (induction xs arbitrary: q) (auto split: option.splits)

lemma run_sends: "run q (map SendReq ms) = Some (q @ ms, [])"
  by (induction ms arbitrary: q) auto

text \<open>
  C6. \<open>Fetch\<close> delivers the whole queue and clears it, \<open>Send\<close> appends at the tail,
  \<open>Return\<close> prepends the batch in its own order. A batch fetched and returned, with
  any messages sent in between, leaves the batch followed by those messages; and
  \<open>Fetch\<close> directly followed by \<open>Return\<close> of the fetched batch changes nothing that
  any later sequence of requests can observe, beyond the reply to the first fetch.
\<close>

theorem mpq_fetch_return_roundtrip:
  "mpq_step q FetchReq = Some ([], [FetchReply q]) \<and>
   mpq_step q (SendReq m) = Some (q @ [m], []) \<and>
   mpq_step q (ReturnReq batch) = Some (batch @ q, []) \<and>
   run q (FetchReq # map SendReq ms @ [ReturnReq q]) = Some (q @ ms, [FetchReply q]) \<and>
   run q (FetchReq # ReturnReq q # later) =
     map_option (\<lambda>(q', out). (q', FetchReply q # out)) (run q later)"
proof -
  have "run [] (map SendReq ms @ [ReturnReq q]) = Some (q @ ms, [])"
    by (simp add: run_append run_sends)
  then have "run q (FetchReq # map SendReq ms @ [ReturnReq q]) = Some (q @ ms, [FetchReply q])"
    by simp
  moreover have "run q (FetchReq # ReturnReq q # later) =
      map_option (\<lambda>(q', out). (q', FetchReply q # out)) (run q later)"
    by (cases "run q later") auto
  ultimately show ?thesis by simp
qed

subsection \<open>The loops of the rounds\<close>

lemma buildRequestMessages_eq:
  "buildRequestMessages queued i new acc =
     (if new = [] \<or> i + length new \<le> length queued
      then Some (acc @ map2 (\<lambda>msg q. \<lparr>sm_Message = msg, sm_Signature = om_Signature q\<rparr>) new (drop i queued))
      else None)"
proof (induction new arbitrary: i acc)
  case Nil
  then show ?case by simp
next
  case (Cons msg rest)
  show ?case
  proof (cases "i < length queued")
    case True
    then have d: "drop i queued = queued ! i # drop (Suc i) queued"
      by (simp add: Cons_nth_drop_Suc)
    show ?thesis using True by (simp add: Cons.IH d)
  next
    case False
    then show ?thesis by simp
  qed
qed

lemma gatherLoop_consumed:
  "gatherLoop n acc evs = Some rs \<Longrightarrow>
     \<exists>got post. rs = acc @ got \<and>
       ((got \<noteq> [] \<and> evs = map ResponseEv got @ post \<and> int (length rs) = n) \<or>
        evs = map ResponseEv got @ TimerEv # post)"
proof (induction n acc evs rule: gatherLoop.induct)
  case (1 n responseList)
  then show ?case by simp
next
  case (2 n responseList response evs)
  show ?case
  proof (cases "int (length (responseList @ [response])) = n")
    case True
    with 2 have "rs = responseList @ [response]" by simp
    with True show ?thesis
      by (intro exI[of _ "[response]"] exI[of _ evs]) simp
  next
    case False
    with 2 have "gatherLoop n (responseList @ [response]) evs = Some rs" by simp
    from "2.IH"[OF False this] obtain got post where g: "rs = (responseList @ [response]) @ got"
      "(got \<noteq> [] \<and> evs = map ResponseEv got @ post \<and> int (length rs) = n) \<or>
        evs = map ResponseEv got @ TimerEv # post"
      by blast
    then show ?thesis
      by (intro exI[of _ "response # got"] exI[of _ post]) auto
  qed
next
  case (3 n responseList evs)
  then show ?case by (intro exI[of _ "[]"] exI[of _ evs]) simp
qed

lemma gatherLoop_timeout:
  "int (length acc + length got) < n \<Longrightarrow>
     gatherLoop n acc (map ResponseEv got @ TimerEv # later) = Some (acc @ got)"
  by (induction got arbitrary: acc) auto

lemma gatherLoop_full:
  "got \<noteq> [] \<Longrightarrow> int (length acc + length got) = n \<Longrightarrow>
     gatherLoop n acc (map ResponseEv got @ later) = Some (acc @ got)"
proof (induction got arbitrary: acc)
  case Nil
  then show ?case by simp
next
  case (Cons r got)
  show ?case
  proof (cases "got = []")
    case True
    with Cons.prems show ?thesis by simp
  next
    case False
    from Cons.prems False have ne: "int (length (acc @ [r])) \<noteq> n" by auto
    from Cons.prems have "int (length (acc @ [r]) + length got) = n" by simp
    from Cons.IH[OF False this] ne show ?thesis by simp
  qed
qed

lemma gatherLoop_waits:
  "int (length acc + length got) < n \<Longrightarrow> gatherLoop n acc (map ResponseEv got) = None"
  by (induction got arbitrary: acc) auto

lemma gatherLoop_timer:
  "TimerEv \<in> set evs \<Longrightarrow> gatherLoop n acc evs \<noteq> None"
  by (induction n acc evs rule: gatherLoop.induct) auto

lemma gatherLoop_timer_returns:
  "TimerEv \<in> set evs \<Longrightarrow> \<exists>rs. gatherLoop n acc evs = Some rs"
  using gatherLoop_timer by blast

lemma createSignatures_length:
  "createSignatures vals sigs rs = Inr sigs' \<Longrightarrow> length sigs' = length sigs"
  by (induction rs arbitrary: sigs)
     (auto split: response_body.splits if_splits option.splits)

lemma unanimousSignatures_length:
  "unanimousSignatures vals h sigs raws rs = Inr (sigs', raws') \<Longrightarrow>
     length sigs' = length sigs \<and> length raws' = length raws"
  by (induction rs arbitrary: sigs raws)
     (auto split: response_body.splits if_splits option.splits)

lemma createSignatures_distinct:
  assumes "\<forall>r\<in>set rs. \<exists>s. fr_Response (lfr_response r) = FollowerResponse_Create True (Some s)"
      and "\<forall>r\<in>set rs. indexNum vals (lfr_address r) < length sigs"
      and "distinct (map (\<lambda>r. indexNum vals (lfr_address r)) rs)"
  shows "\<exists>sigs'. createSignatures vals sigs rs = Inr sigs' \<and> length sigs' = length sigs \<and>
      (\<forall>r\<in>set rs. \<forall>s. fr_Response (lfr_response r) = FollowerResponse_Create True (Some s) \<longrightarrow>
          sigs' ! indexNum vals (lfr_address r) = fromWire s) \<and>
      (\<forall>i. i \<notin> (\<lambda>r. indexNum vals (lfr_address r)) ` set rs \<longrightarrow> sigs' ! i = sigs ! i)"
  using assms
proof (induction rs arbitrary: sigs)
  case Nil
  then show ?case by simp
next
  case (Cons r rs)
  from Cons.prems(1) obtain s where s: "fr_Response (lfr_response r) = FollowerResponse_Create True (Some s)"
    by auto
  let ?i = "indexNum vals (lfr_address r)"
  let ?sigs = "sigs[?i := fromWire s]"
  from Cons.prems have i: "?i < length sigs" by simp
  have p1: "\<forall>r\<in>set rs. \<exists>s. fr_Response (lfr_response r) = FollowerResponse_Create True (Some s)"
    using Cons.prems(1) by simp
  have p2: "\<forall>r\<in>set rs. indexNum vals (lfr_address r) < length ?sigs"
    using Cons.prems(2) by simp
  have p3: "distinct (map (\<lambda>r. indexNum vals (lfr_address r)) rs)"
    using Cons.prems(3) by simp
  have notin: "?i \<notin> (\<lambda>r. indexNum vals (lfr_address r)) ` set rs"
    using Cons.prems(3) by auto
  from Cons.IH[OF p1 p2 p3] obtain sigs' where
    run: "createSignatures vals ?sigs rs = Inr sigs'" and
    len: "length sigs' = length ?sigs" and
    at: "\<forall>r\<in>set rs. \<forall>s. fr_Response (lfr_response r) = FollowerResponse_Create True (Some s) \<longrightarrow>
          sigs' ! indexNum vals (lfr_address r) = fromWire s" and
    other: "\<forall>i. i \<notin> (\<lambda>r. indexNum vals (lfr_address r)) ` set rs \<longrightarrow> sigs' ! i = ?sigs ! i"
    by blast
  have here: "sigs' ! ?i = fromWire s"
    using other notin i by simp
  have "createSignatures vals sigs (r # rs) = Inr sigs'"
    using s i run by simp
  moreover have "length sigs' = length sigs" using len by simp
  moreover have "\<forall>r'\<in>set (r # rs). \<forall>s'. fr_Response (lfr_response r') = FollowerResponse_Create True (Some s') \<longrightarrow>
          sigs' ! indexNum vals (lfr_address r') = fromWire s'"
    using at here s by auto
  moreover have "\<forall>j. j \<notin> (\<lambda>r. indexNum vals (lfr_address r)) ` set (r # rs) \<longrightarrow> sigs' ! j = sigs ! j"
    using other by auto
  ultimately show ?case by blast
qed

lemma unanimousSignatures_distinct:
  assumes "\<forall>r\<in>set rs. \<exists>s. fr_Response (lfr_response r) = FollowerResponse_Unanimous True (Some s) h"
      and "\<forall>r\<in>set rs. indexNum vals (lfr_address r) < length sigs"
      and "length raws = length sigs"
      and "distinct (map (\<lambda>r. indexNum vals (lfr_address r)) rs)"
  shows "\<exists>sigs' raws'. unanimousSignatures vals h sigs raws rs = Inr (sigs', raws') \<and>
      length sigs' = length sigs \<and> length raws' = length raws \<and>
      (\<forall>r\<in>set rs. \<forall>s. fr_Response (lfr_response r) = FollowerResponse_Unanimous True (Some s) h \<longrightarrow>
          sigs' ! indexNum vals (lfr_address r) = fromWire s \<and>
          raws' ! indexNum vals (lfr_address r) = Some s) \<and>
      (\<forall>i. i \<notin> (\<lambda>r. indexNum vals (lfr_address r)) ` set rs \<longrightarrow>
          sigs' ! i = sigs ! i \<and> raws' ! i = raws ! i)"
  using assms
proof (induction rs arbitrary: sigs raws)
  case Nil
  then show ?case by simp
next
  case (Cons r rs)
  from Cons.prems(1) obtain s where s: "fr_Response (lfr_response r) = FollowerResponse_Unanimous True (Some s) h"
    by auto
  let ?i = "indexNum vals (lfr_address r)"
  let ?sigs = "sigs[?i := fromWire s]"
  let ?raws = "raws[?i := Some s]"
  from Cons.prems have i: "?i < length sigs" "?i < length raws" by simp_all
  have p1: "\<forall>r\<in>set rs. \<exists>s. fr_Response (lfr_response r) = FollowerResponse_Unanimous True (Some s) h"
    using Cons.prems(1) by simp
  have p2: "\<forall>r\<in>set rs. indexNum vals (lfr_address r) < length ?sigs"
    using Cons.prems(2) by simp
  have p3: "length ?raws = length ?sigs" using Cons.prems(3) by simp
  have p4: "distinct (map (\<lambda>r. indexNum vals (lfr_address r)) rs)"
    using Cons.prems(4) by simp
  have notin: "?i \<notin> (\<lambda>r. indexNum vals (lfr_address r)) ` set rs"
    using Cons.prems(4) by auto
  from Cons.IH[OF p1 p2 p3 p4] obtain sigs' raws' where
    run: "unanimousSignatures vals h ?sigs ?raws rs = Inr (sigs', raws')" and
    len: "length sigs' = length ?sigs" "length raws' = length ?raws" and
    at: "\<forall>r\<in>set rs. \<forall>s. fr_Response (lfr_response r) = FollowerResponse_Unanimous True (Some s) h \<longrightarrow>
          sigs' ! indexNum vals (lfr_address r) = fromWire s \<and>
          raws' ! indexNum vals (lfr_address r) = Some s" and
    other: "\<forall>i. i \<notin> (\<lambda>r. indexNum vals (lfr_address r)) ` set rs \<longrightarrow>
          sigs' ! i = ?sigs ! i \<and> raws' ! i = ?raws ! i"
    by blast
  have here: "sigs' ! ?i = fromWire s" "raws' ! ?i = Some s"
    using other notin i by simp_all
  have "unanimousSignatures vals h sigs raws (r # rs) = Inr (sigs', raws')"
    using s i run by simp
  moreover have "length sigs' = length sigs" "length raws' = length raws" using len by simp_all
  moreover have "\<forall>r'\<in>set (r # rs). \<forall>s'. fr_Response (lfr_response r') = FollowerResponse_Unanimous True (Some s') h \<longrightarrow>
          sigs' ! indexNum vals (lfr_address r') = fromWire s' \<and>
          raws' ! indexNum vals (lfr_address r') = Some s'"
    using at here s by auto
  moreover have "\<forall>j. j \<notin> (\<lambda>r. indexNum vals (lfr_address r)) ` set (r # rs) \<longrightarrow>
          sigs' ! j = sigs ! j \<and> raws' ! j = raws ! j"
    using other by auto
  ultimately show ?case by blast
qed

lemma indexNum_of_member:
  "distinct (map fst vals) \<Longrightarrow> (a, i) \<in> set vals \<Longrightarrow> indexNum vals a = i"
  by (simp add: indexNum_def)

lemma indexNum_inj:
  assumes "distinct (map fst vals)" "distinct (map snd vals)"
  shows "inj_on (indexNum vals) (fst ` set vals)"
proof (rule inj_onI)
  fix a b assume a: "a \<in> fst ` set vals" and b: "b \<in> fst ` set vals"
    and eq: "indexNum vals a = indexNum vals b"
  from a obtain i where ai: "(a, i) \<in> set vals" by auto
  from b obtain j where bj: "(b, j) \<in> set vals" by auto
  from ai bj eq assms(1) have "i = j" by (simp add: indexNum_of_member)
  moreover from assms(2) have "inj_on snd (set vals)" by (simp add: distinct_map)
  ultimately have "(a, i) = (b, j)" using ai bj by (intro inj_onD[of snd "set vals"]) simp_all
  then show "a = b" by simp
qed

lemma indexNum_bound:
  "distinct (map fst vals) \<Longrightarrow> \<forall>i\<in>set (map snd vals). i < length vals \<Longrightarrow>
     a \<in> fst ` set vals \<Longrightarrow> indexNum vals a < length vals"
  by (auto simp: indexNum_of_member)

lemma all_indices_covered:
  assumes df: "distinct (map fst vals)" and ds: "distinct (map snd vals)"
      and bound: "\<forall>i\<in>set (map snd vals). i < length vals"
      and sub: "A \<subseteq> fst ` set vals - {own}" and own: "own \<in> fst ` set vals"
      and card: "card A = length vals - 1"
      and i: "i < length vals"
  shows "i = indexNum vals own \<or> i \<in> indexNum vals ` A"
proof -
  have "card (set (map snd vals)) = length vals" using distinct_card[OF ds] by simp
  moreover have "set (map snd vals) \<subseteq> {..<length vals}" using bound by auto
  ultimately have "set (map snd vals) = {..<length vals}"
    by (intro card_subset_eq) simp_all
  with i have "i \<in> snd ` set vals" by simp
  then obtain a where ai: "(a, i) \<in> set vals" by auto
  then have idx: "indexNum vals a = i" using df by (simp add: indexNum_of_member)
  have "card (set (map fst vals)) = length vals" using distinct_card[OF df] by simp
  then have "card (fst ` set vals - {own}) = length vals - 1" using own by simp
  with sub card have "A = fst ` set vals - {own}"
    by (intro card_subset_eq) simp_all
  then show ?thesis using ai idx by (cases "a = own") force+
qed

subsection \<open>Signature gathering\<close>

text \<open>
  C7. When \<open>gatherSignatures\<close> returns, it has put its one request on the channel of
  signature requests, and either the events it received are exactly the responses it
  returns, the last of which made their number \<open>N - 1\<close>, or they are the responses it
  returns followed by the timer event. With fewer than \<open>N - 1\<close> responses and no timer
  event it does not return; with fewer than \<open>N - 1\<close> responses followed by the timer
  event it returns those responses at once, whatever comes later (no retry); with
  \<open>N - 1\<close> responses it returns them; and it returns whenever the timer fires. When the
  list it returned is shorter than \<open>N - 1\<close>, \<open>createVMImpl\<close> notifies the followers and
  returns the error "some Validators didn't respond"; \<open>_initiateUnanimousAssertionImpl\<close>
  then returns an error in every case, and that same error whenever the Bot's results,
  the hash and the coordinator's signature raised none before the list is read.
\<close>

theorem gatherSignatures_returns_or_timeout:
  "(gatherSignatures nValidators request requestID evs = (sent, Returns rs) \<longrightarrow>
      sent = [SigRequest request requestID] \<and>
      (\<exists>post. (rs \<noteq> [] \<and> evs = map ResponseEv rs @ post \<and> int (length rs) = nValidators - 1) \<or>
              evs = map ResponseEv rs @ TimerEv # post)) \<and>
   (int (length got) < nValidators - 1 \<longrightarrow>
      gatherSignatures nValidators request requestID (map ResponseEv got) =
        ([SigRequest request requestID], Blocks)) \<and>
   (int (length got) < nValidators - 1 \<longrightarrow>
      gatherSignatures nValidators request requestID (map ResponseEv got @ TimerEv # later) =
        ([SigRequest request requestID], Returns got)) \<and>
   (got \<noteq> [] \<longrightarrow> int (length got) = nValidators - 1 \<longrightarrow>
      gatherSignatures nValidators request requestID (map ResponseEv got @ later) =
        ([SigRequest request requestID], Returns got)) \<and>
   (1 \<le> nValidators \<longrightarrow> TimerEv \<in> set evs \<longrightarrow>
      (\<exists>rs'. gatherSignatures nValidators request requestID evs =
               ([SigRequest request requestID], Returns rs'))) \<and>
   (WaitForFollowers env \<longrightarrow>
    gatherSignatures (ValidatorCount val)
      \<lparr>vr_RequestId = None, vr_Request = ValidatorRequest_Create (createData val env)\<rparr>
      (CreateVMHash env (createData val env)) (followerEvents env) = (sent', Returns responses) \<longrightarrow>
    int (length responses) < ValidatorCount val - 1 \<longrightarrow>
      createVMImpl val env =
        (Bot_RequestVMState # sent' @ [notifyCreate False],
         Returns (False, Some ''some Validators didn't respond''))) \<and>
   (InitiateUnanimousRequest_request env = Inr unanRequest \<longrightarrow>
    length (rq_NewMessages unanRequest) \<le> length queuedMessages \<longrightarrow>
    snd (gatherSignatures (ValidatorCount val) request' requestID' (followerEvents env)) =
      Returns responses \<longrightarrow>
    int (length responses) < ValidatorCount val - 1 \<longrightarrow>
      (\<exists>e. snd (inner_initiateUnanimousAssertionImpl val env queuedMessages forceFinal) =
             Returns (False, Some e)) \<and>
      (\<forall>unanUpdate unanHash sg.
         InitiateUnanimousRequest_results env = Inr unanUpdate \<longrightarrow>
         UnanimousAssertHash env (uu_SequenceNum (forceOnchain unanUpdate))
           (uu_BeforeHash (forceOnchain unanUpdate)) (uu_TimeBounds (forceOnchain unanUpdate))
           (uu_NewInboxHash (forceOnchain unanUpdate)) (uu_OriginalInboxHash (forceOnchain unanUpdate))
           (uu_Assertion (forceOnchain unanUpdate)) = Inr unanHash \<longrightarrow>
         Sign env unanHash = Inr sg \<longrightarrow>
           snd (inner_initiateUnanimousAssertionImpl val env queuedMessages forceFinal) =
             Returns (False, Some ''some Validators didn't respond'')))"
proof -
  have a: "gatherSignatures nValidators request requestID evs = (sent, Returns rs) \<longrightarrow>
      sent = [SigRequest request requestID] \<and>
      (\<exists>post. (rs \<noteq> [] \<and> evs = map ResponseEv rs @ post \<and> int (length rs) = nValidators - 1) \<or>
              evs = map ResponseEv rs @ TimerEv # post)"
  proof
    assume g: "gatherSignatures nValidators request requestID evs = (sent, Returns rs)"
    then have s: "sent = [SigRequest request requestID]"
      and l: "gatherLoop (nValidators - 1) [] evs = Some rs"
      by (auto simp: gatherSignatures_def split: if_splits option.splits)
    from gatherLoop_consumed[OF l] s
    show "sent = [SigRequest request requestID] \<and>
      (\<exists>post. (rs \<noteq> [] \<and> evs = map ResponseEv rs @ post \<and> int (length rs) = nValidators - 1) \<or>
              evs = map ResponseEv rs @ TimerEv # post)"
      by auto
  qed
  have b: "int (length got) < nValidators - 1 \<longrightarrow>
      gatherSignatures nValidators request requestID (map ResponseEv got) =
        ([SigRequest request requestID], Blocks)"
    using gatherLoop_waits[of "[]" got "nValidators - 1"]
    by (auto simp: gatherSignatures_def)
  have c: "int (length got) < nValidators - 1 \<longrightarrow>
      gatherSignatures nValidators request requestID (map ResponseEv got @ TimerEv # later) =
        ([SigRequest request requestID], Returns got)"
    using gatherLoop_timeout[of "[]" got "nValidators - 1" later]
    by (auto simp: gatherSignatures_def)
  have d: "got \<noteq> [] \<longrightarrow> int (length got) = nValidators - 1 \<longrightarrow>
      gatherSignatures nValidators request requestID (map ResponseEv got @ later) =
        ([SigRequest request requestID], Returns got)"
    using gatherLoop_full[of got "[]" "nValidators - 1" later]
    by (auto simp: gatherSignatures_def)
  have e: "1 \<le> nValidators \<longrightarrow> TimerEv \<in> set evs \<longrightarrow>
      (\<exists>rs'. gatherSignatures nValidators request requestID evs =
               ([SigRequest request requestID], Returns rs'))"
    using gatherLoop_timer_returns[of evs "nValidators - 1" "[]"]
    by (auto simp: gatherSignatures_def)
  have f: "WaitForFollowers env \<longrightarrow>
    gatherSignatures (ValidatorCount val)
      \<lparr>vr_RequestId = None, vr_Request = ValidatorRequest_Create (createData val env)\<rparr>
      (CreateVMHash env (createData val env)) (followerEvents env) = (sent', Returns responses) \<longrightarrow>
    int (length responses) < ValidatorCount val - 1 \<longrightarrow>
      createVMImpl val env =
        (Bot_RequestVMState # sent' @ [notifyCreate False],
         Returns (False, Some ''some Validators didn't respond''))"
    by (simp add: createVMImpl_def err_no_response_def)
  have g: "InitiateUnanimousRequest_request env = Inr unanRequest \<longrightarrow>
    length (rq_NewMessages unanRequest) \<le> length queuedMessages \<longrightarrow>
    snd (gatherSignatures (ValidatorCount val) request' requestID' (followerEvents env)) =
      Returns responses \<longrightarrow>
    int (length responses) < ValidatorCount val - 1 \<longrightarrow>
      (\<exists>e. snd (inner_initiateUnanimousAssertionImpl val env queuedMessages forceFinal) =
             Returns (False, Some e)) \<and>
      (\<forall>unanUpdate unanHash sg.
         InitiateUnanimousRequest_results env = Inr unanUpdate \<longrightarrow>
         UnanimousAssertHash env (uu_SequenceNum (forceOnchain unanUpdate))
           (uu_BeforeHash (forceOnchain unanUpdate)) (uu_TimeBounds (forceOnchain unanUpdate))
           (uu_NewInboxHash (forceOnchain unanUpdate)) (uu_OriginalInboxHash (forceOnchain unanUpdate))
           (uu_Assertion (forceOnchain unanUpdate)) = Inr unanHash \<longrightarrow>
         Sign env unanHash = Inr sg \<longrightarrow>
           snd (inner_initiateUnanimousAssertionImpl val env queuedMessages forceFinal) =
             Returns (False, Some ''some Validators didn't respond''))"
    by (auto simp: inner_initiateUnanimousAssertionImpl_def gatherSignatures_def
        buildRequestMessages_eq unanimousAfterRequest_def unanimousFinish_def err_no_response_def
        split: if_splits option.splits sum.splits)
  from a b c d e f g show ?thesis by blast
qed

theorem gatherSignatures_returns_or_timeout_witness:
  "gatherSignatures 3 createRequest3 5 [ResponseEv (unanimousResponse 11 True sigA 8), TimerEv] =
     ([SigRequest createRequest3 5], Returns [unanimousResponse 11 True sigA 8]) \<and>
   gatherSignatures 3 createRequest3 5 [ResponseEv (unanimousResponse 11 True sigA 8)] =
     ([SigRequest createRequest3 5], Blocks) \<and>
   gatherSignatures 3 createRequest3 5
     [ResponseEv (unanimousResponse 11 True sigA 8), ResponseEv (unanimousResponse 12 True sigB 8),
      TimerEv] =
     ([SigRequest createRequest3 5],
      Returns [unanimousResponse 11 True sigA 8, unanimousResponse 12 True sigB 8]) \<and>
   createVMImpl val3
     (env0\<lparr>followerEvents := [ResponseEv (unanimousResponse 11 True sigA 8), TimerEv]\<rparr>) =
     ([Bot_RequestVMState, SigRequest createRequest3 5, notifyCreate False],
      Returns (False, Some ''some Validators didn't respond'')) \<and>
   snd (inner_initiateUnanimousAssertionImpl val3
          (env0\<lparr>followerEvents := [ResponseEv (unanimousResponse 11 True sigA 8), TimerEv]\<rparr>)
          queue2 False) =
     Returns (False, Some ''some Validators didn't respond'')"
  using gatherSignatures_returns_or_timeout
    [where nValidators = 3 and request = createRequest3 and requestID = 5
       and evs = "[ResponseEv (unanimousResponse 11 True sigA 8), TimerEv]"
       and sent = "[SigRequest createRequest3 5]"
       and rs = "[unanimousResponse 11 True sigA 8]"
       and got = "[unanimousResponse 11 True sigA 8]"
       and later = "[]"
       and env = "env0\<lparr>followerEvents := [ResponseEv (unanimousResponse 11 True sigA 8), TimerEv]\<rparr>"
       and val = val3
       and sent' = "[SigRequest createRequest3 5]"
       and responses = "[unanimousResponse 11 True sigA 8]"
       and unanRequest = "\<lparr>rq_Data = \<lparr>rd_BeforeHash = 1, rd_BeforeInbox = 2, rd_SequenceNum = 0, rd_TimeBounds = 3\<rparr>,
             rq_NewMessages = [40, 41]\<rparr>"
       and queuedMessages = queue2 and request' = createRequest3 and requestID' = 5
       and forceFinal = False]
    gatherSignatures_returns_or_timeout
    [where nValidators = 3 and request = createRequest3 and requestID = 5
       and got = "[unanimousResponse 11 True sigA 8, unanimousResponse 12 True sigB 8]"
       and later = "[TimerEv]" and evs = "[]" and env = env0 and val = val3
       and responses = "[]" and queuedMessages = queue2 and forceFinal = False]
  by (simp add: env0_def val3_def queue2_def ValidatorCount_def forceOnchain_def
       createRequest3_def createData_def gatherSignatures_def)

subsection \<open>VM creation\<close>

text \<open>
  C8. When \<open>WaitForFollowers\<close> returns false, \<open>createVMImpl\<close> returns the error
  "coordinator can only create VM when connected to all other validators" and has done
  nothing else: no request and no notification was handed to the client manager, and
  neither the Bot nor the signer was called.
\<close>

theorem createVM_requires_all_followers:
  "\<not> WaitForFollowers env \<Longrightarrow>
     createVMImpl val env =
       ([], Returns (False, Some ''coordinator can only create VM when connected to all other validators''))"
  by (simp add: createVMImpl_def err_not_connected_def)

theorem createVM_requires_all_followers_witness:
  "\<not> WaitForFollowers (env0\<lparr>WaitForFollowers := False\<rparr>) \<and>
   createVMImpl val3 (env0\<lparr>WaitForFollowers := False\<rparr>) =
     ([], Returns (False, Some ''coordinator can only create VM when connected to all other validators''))"
  using createVM_requires_all_followers [of "env0\<lparr>WaitForFollowers := False\<rparr>" val3]
  by (simp add: env0_def)

text \<open>
  C3. With three validators, one follower accepting and the other replying
  \<open>Accepted = false\<close>, \<open>createVMImpl\<close> returns the error "some Validators refused to
  sign" after the state request, the signature request and its own signing: it puts no
  \<open>CreateNotification\<close> on the broadcast channel, neither with \<open>Approved = false\<close> nor
  otherwise. The only path of \<open>createVMImpl\<close> that calls \<open>notifyFollowers\<close> is the one
  taken when the number of responses is wrong.
\<close>

theorem createVM_refusal_not_notified:
  "createVMImpl val3
     (env0\<lparr>followerEvents :=
        [ResponseEv (createResponse 11 True sigA), ResponseEv (createResponse 12 False sigB)]\<rparr>) =
     ([Bot_RequestVMState,
       SigRequest \<lparr>vr_RequestId = None,
                   vr_Request = ValidatorRequest_Create
                     \<lparr>cv_Config = 3, cv_VmId = 7, cv_VmState = 4, cv_ChallengeManagerNum = 0\<rparr>\<rparr> 5,
       Val_Sign 5],
      Returns (False, Some ''some Validators refused to sign''))"
  by (simp add: createVMImpl_def env0_def val3_def gatherSignatures_def ValidatorCount_def
      createFinish_def createData_def indexNum_def createResponse_def err_refused_def)

subsection \<open>Responses with an unknown request id\<close>

text \<open>
  C2. In a manager with no round registered, the handler of the aggregate response
  channel looks the response's request id up in \<open>responses\<close>, gets the nil channel of a
  missing key, and sends on it: the send never completes, so the loop of \<open>Run\<close> handles
  no later event (here a registration and a broadcast).
\<close>

theorem unknown_response_blocks_manager:
  "cm_step 3 NewClientManager (AggResponseEv (unanimousResponse 11 True sigA 8)) = BlocksForever \<and>
   Run 3 NewClientManager
     [AggResponseEv (unanimousResponse 11 True sigA 8), RegisterEv 1, BroadcastEv] = BlocksForever"
  by (simp add: NewClientManager_def unanimousResponse_def)

subsection \<open>The signed messages of a unanimous request\<close>

text \<open>
  C10. The loop that builds the signed messages panics exactly when the Bot's request
  lists more messages than were queued. Otherwise it pairs the message at each position
  of the Bot's list with the signature of the queued message at the same position,
  whatever that message is: the pairs are those of message and originator's signature
  when the Bot returns the queued messages in their order. The round panics when the
  Bot's list is longer than the queue.
\<close>

theorem requestMessages_in_range:
  "(buildRequestMessages queuedMessages 0 newMessages [] = None) =
     (length queuedMessages < length newMessages) \<and>
   (length newMessages \<le> length queuedMessages \<longrightarrow>
      buildRequestMessages queuedMessages 0 newMessages [] =
        Some (map2 (\<lambda>msg q. \<lparr>sm_Message = msg, sm_Signature = om_Signature q\<rparr>)
                newMessages queuedMessages)) \<and>
   buildRequestMessages queuedMessages 0 (map om_Message queuedMessages) [] =
     Some (map (\<lambda>q. \<lparr>sm_Message = om_Message q, sm_Signature = om_Signature q\<rparr>) queuedMessages) \<and>
   (InitiateUnanimousRequest_request env = Inr unanRequest \<longrightarrow>
    length queuedMessages < length (rq_NewMessages unanRequest) \<longrightarrow>
      snd (inner_initiateUnanimousAssertionImpl val env queuedMessages forceFinal) = Panics)"
proof -
  have a: "(buildRequestMessages queuedMessages 0 newMessages [] = None) =
     (length queuedMessages < length newMessages)"
    by (simp add: buildRequestMessages_eq)
  have b: "length newMessages \<le> length queuedMessages \<longrightarrow>
      buildRequestMessages queuedMessages 0 newMessages [] =
        Some (map2 (\<lambda>msg q. \<lparr>sm_Message = msg, sm_Signature = om_Signature q\<rparr>)
                newMessages queuedMessages)"
    by (simp add: buildRequestMessages_eq)
  have c: "buildRequestMessages queuedMessages 0 (map om_Message queuedMessages) [] =
     Some (map (\<lambda>q. \<lparr>sm_Message = om_Message q, sm_Signature = om_Signature q\<rparr>) queuedMessages)"
    by (simp add: buildRequestMessages_eq zip_map1 zip_same_conv_map)
  have d: "InitiateUnanimousRequest_request env = Inr unanRequest \<longrightarrow>
    length queuedMessages < length (rq_NewMessages unanRequest) \<longrightarrow>
      snd (inner_initiateUnanimousAssertionImpl val env queuedMessages forceFinal) = Panics"
    by (simp add: inner_initiateUnanimousAssertionImpl_def buildRequestMessages_eq)
  from a b c d show ?thesis by blast
qed

theorem requestMessages_in_range_witness:
  "buildRequestMessages queue2 0 [41, 40] [] =
     Some [\<lparr>sm_Message = 41, sm_Signature = [1]\<rparr>, \<lparr>sm_Message = 40, sm_Signature = [2]\<rparr>] \<and>
   buildRequestMessages queue2 0 [40, 41, 42] [] = None \<and>
   snd (inner_initiateUnanimousAssertionImpl val3
          (env0\<lparr>InitiateUnanimousRequest_request :=
             Inr \<lparr>rq_Data = \<lparr>rd_BeforeHash = 1, rd_BeforeInbox = 2, rd_SequenceNum = 0, rd_TimeBounds = 3\<rparr>,
                  rq_NewMessages = [40, 41, 42]\<rparr>\<rparr>) queue2 False) = Panics"
  using requestMessages_in_range
    [where queuedMessages = queue2 and newMessages = "[41, 40]" and val = val3
       and forceFinal = False
       and env = "env0\<lparr>InitiateUnanimousRequest_request :=
             Inr \<lparr>rq_Data = \<lparr>rd_BeforeHash = 1, rd_BeforeInbox = 2, rd_SequenceNum = 0, rd_TimeBounds = 3\<rparr>,
                  rq_NewMessages = [40, 41, 42]\<rparr>\<rparr>"
       and unanRequest = "\<lparr>rq_Data = \<lparr>rd_BeforeHash = 1, rd_BeforeInbox = 2, rd_SequenceNum = 0, rd_TimeBounds = 3\<rparr>,
                  rq_NewMessages = [40, 41, 42]\<rparr>"]
    requestMessages_in_range
    [where queuedMessages = queue2 and newMessages = "[40, 41, 42]" and val = val3
       and forceFinal = False and env = env0
       and unanRequest = "\<lparr>rq_Data = \<lparr>rd_BeforeHash = 1, rd_BeforeInbox = 2, rd_SequenceNum = 0, rd_TimeBounds = 3\<rparr>,
                  rq_NewMessages = [40, 41]\<rparr>"]
  by (simp add: env0_def queue2_def)

subsection \<open>The stages of the unanimous round\<close>

lemma queue_after_failure [simp]:
  "queue_after q (FetchReq # map SendReq ms @ [ReturnReq q]) = q @ ms"
  by (simp add: queue_after_def run_append run_sends)

lemma queue_after_success [simp]:
  "queue_after q (FetchReq # map SendReq ms) = ms"
  by (simp add: queue_after_def run_sends)

lemma unanimousFinish_success:
  "unanimousFinish val env unanRequest hashId unanUpdate unanHash sg responses = (tr, Returns (b, None)) \<Longrightarrow>
     \<exists>signatures rawSignatures.
       tr = [notifyUnanimous hashId \<lparr>un_Accepted = True, un_Signatures = rawSignatures\<rparr>,
             Bot_ConfirmOffchainUnanimousAssertion (rq_Data unanRequest) signatures] \<and>
       b = (uu_SequenceNum unanUpdate = - 1) \<and>
       ConfirmOffchainUnanimousAssertion env = None"
  by (auto simp: unanimousFinish_def split: if_splits sum.splits stop.splits option.splits prod.splits)

lemma unanimousAfterRequest_success:
  "unanimousAfterRequest val env unanRequest hashId gathered = (tr, Returns (b, None)) \<Longrightarrow>
     \<exists>unanUpdate unanHash signatures rawSignatures.
       InitiateUnanimousRequest_results env = Inr unanUpdate \<and>
       UnanimousAssertHash env
         (uu_SequenceNum (forceOnchain unanUpdate)) (uu_BeforeHash (forceOnchain unanUpdate))
         (uu_TimeBounds (forceOnchain unanUpdate)) (uu_NewInboxHash (forceOnchain unanUpdate))
         (uu_OriginalInboxHash (forceOnchain unanUpdate))
         (uu_Assertion (forceOnchain unanUpdate)) = Inr unanHash \<and>
       tr = [hashCall (forceOnchain unanUpdate), Val_Sign unanHash,
             notifyUnanimous hashId \<lparr>un_Accepted = True, un_Signatures = rawSignatures\<rparr>,
             Bot_ConfirmOffchainUnanimousAssertion (rq_Data unanRequest) signatures] \<and>
       b = (uu_SequenceNum (forceOnchain unanUpdate) = - 1) \<and>
       ConfirmOffchainUnanimousAssertion env = None"
  by (auto simp: unanimousAfterRequest_def split: sum.splits exec.splits prod.splits
           dest!: unanimousFinish_success)

lemma inner_success:
  "inner_initiateUnanimousAssertionImpl val env queuedMessages forceFinal = (tr, Returns (b, None)) \<Longrightarrow>
     \<exists>unanRequest unanUpdate unanHash signatures rawSignatures request.
       InitiateUnanimousRequest_request env = Inr unanRequest \<and>
       InitiateUnanimousRequest_results env = Inr unanUpdate \<and>
       UnanimousAssertHash env
         (uu_SequenceNum (forceOnchain unanUpdate)) (uu_BeforeHash (forceOnchain unanUpdate))
         (uu_TimeBounds (forceOnchain unanUpdate)) (uu_NewInboxHash (forceOnchain unanUpdate))
         (uu_OriginalInboxHash (forceOnchain unanUpdate))
         (uu_Assertion (forceOnchain unanUpdate)) = Inr unanHash \<and>
       tr = [Bot_InitiateUnanimousRequest 10000 (map om_Message queuedMessages) forceFinal,
             SigRequest request (RequestHash env unanRequest),
             hashCall (forceOnchain unanUpdate), Val_Sign unanHash,
             notifyUnanimous (RequestHash env unanRequest)
               \<lparr>un_Accepted = True, un_Signatures = rawSignatures\<rparr>,
             Bot_ConfirmOffchainUnanimousAssertion (rq_Data unanRequest) signatures] \<and>
       b = (uu_SequenceNum (forceOnchain unanUpdate) = - 1) \<and>
       ConfirmOffchainUnanimousAssertion env = None"
  by (auto simp: inner_initiateUnanimousAssertionImpl_def gatherSignatures_def
           split: sum.splits exec.splits prod.splits option.splits if_splits
           dest!: unanimousAfterRequest_success)

lemma unanimousSignatures_good_prefix:
  assumes "\<forall>g\<in>set good. \<exists>s.
             fr_Response (lfr_response g) = FollowerResponse_Unanimous True (Some s) h"
      and "\<forall>g\<in>set good. indexNum vals (lfr_address g) < length sigs"
      and "length raws = length sigs"
  shows "\<exists>sigs' raws'. length sigs' = length sigs \<and> length raws' = length sigs \<and>
           unanimousSignatures vals h sigs raws (good @ xs) =
             unanimousSignatures vals h sigs' raws' xs"
  using assms
proof (induction good arbitrary: sigs raws)
  case Nil
  then show ?case by auto
next
  case (Cons g good)
  from Cons.prems(1) obtain s where
    s: "fr_Response (lfr_response g) = FollowerResponse_Unanimous True (Some s) h"
    by auto
  from Cons.prems(2) have i: "indexNum vals (lfr_address g) < length sigs" by simp
  let ?i = "indexNum vals (lfr_address g)"
  have p1: "\<forall>g\<in>set good. \<exists>s.
             fr_Response (lfr_response g) = FollowerResponse_Unanimous True (Some s) h"
    using Cons.prems(1) by simp
  have p1': "\<forall>g\<in>set good. indexNum vals (lfr_address g) < length (sigs[?i := fromWire s])"
    using Cons.prems(2) by simp
  have p2: "length (raws[?i := Some s]) = length (sigs[?i := fromWire s])"
    using Cons.prems(3) by simp
  from Cons.IH[OF p1 p1' p2] obtain sigs' raws' where
    "length sigs' = length sigs" "length raws' = length sigs"
    "unanimousSignatures vals h (sigs[?i := fromWire s]) (raws[?i := Some s]) (good @ xs) =
       unanimousSignatures vals h sigs' raws' xs"
    by auto
  moreover have "unanimousSignatures vals h sigs raws ((g # good) @ xs) =
      unanimousSignatures vals h (sigs[?i := fromWire s]) (raws[?i := Some s]) (good @ xs)"
    using s i Cons.prems(3) by simp
  ultimately show ?case by metis
qed

lemma unanimousSignatures_refusal:
  assumes "\<forall>g\<in>set good. \<exists>s.
             fr_Response (lfr_response g) = FollowerResponse_Unanimous True (Some s) h"
      and "\<forall>g\<in>set good. indexNum vals (lfr_address g) < length sigs"
      and "length raws = length sigs"
      and "fr_Response (lfr_response r) = FollowerResponse_Unanimous False sg h'"
  shows "unanimousSignatures vals h sigs raws (good @ r # rest) = Inl (StopError err_refused)"
proof -
  from unanimousSignatures_good_prefix[OF assms(1,2,3), of "r # rest"] obtain sigs' raws' where
    "unanimousSignatures vals h sigs raws (good @ r # rest) =
       unanimousSignatures vals h sigs' raws' (r # rest)"
    by blast
  then show ?thesis using assms(4) by simp
qed

lemma unanimousSignatures_disagreement:
  assumes "\<forall>g\<in>set good. \<exists>s.
             fr_Response (lfr_response g) = FollowerResponse_Unanimous True (Some s) h"
      and "\<forall>g\<in>set good. indexNum vals (lfr_address g) < length sigs"
      and "length raws = length sigs"
      and "fr_Response (lfr_response r) = FollowerResponse_Unanimous True sg h'"
      and "h' \<noteq> h"
  shows "unanimousSignatures vals h sigs raws (good @ r # rest) = Inl (StopError err_wrong_assertion)"
proof -
  from unanimousSignatures_good_prefix[OF assms(1,2,3), of "r # rest"] obtain sigs' raws' where
    "unanimousSignatures vals h sigs raws (good @ r # rest) =
       unanimousSignatures vals h sigs' raws' (r # rest)"
    by blast
  then show ?thesis using assms(4,5) by simp
qed

lemma error_returns_batch:
  "initiateUnanimousAssertionImpl val env queue forceFinal = (tr, Returns (b, Some e), queue') \<Longrightarrow>
     \<not> b \<and> queue' = queue @ arrivals env"
  by (auto simp: initiateUnanimousAssertionImpl_def
           split: prod.splits exec.splits option.splits if_splits)

text \<open>
  C4. The claim as stated fails in two places: when the Bot's error arrives in place of
  the round's request, nothing is broadcast to the followers; and when the drained
  batch is empty and nothing was sent meanwhile, the queue is empty after the failed
  round, so \<open>HasMessages\<close> answers false.
\<close>

theorem unanimous_failure_counterexample:
  "initiateUnanimousAssertionImpl val3
     (env0\<lparr>InitiateUnanimousRequest_request := Inl ''bot failed''\<rparr>) queue2 False =
     ([Bot_InitiateUnanimousRequest 10000 [40, 41] False],
      Returns (False, Some ''bot failed''), queue2) \<and>
   fst (snd (initiateUnanimousAssertionImpl val3
     (env0\<lparr>InitiateUnanimousRequest_request :=
             Inr \<lparr>rq_Data = \<lparr>rd_BeforeHash = 1, rd_BeforeInbox = 2, rd_SequenceNum = 0, rd_TimeBounds = 3\<rparr>,
                  rq_NewMessages = []\<rparr>,
           followerEvents :=
             [ResponseEv (unanimousResponse 11 True sigA 8),
              ResponseEv (unanimousResponse 12 False sigB 8)]\<rparr>) [] True)) =
     Returns (False, Some ''some Validators refused to sign'') \<and>
   snd (snd (initiateUnanimousAssertionImpl val3
     (env0\<lparr>InitiateUnanimousRequest_request :=
             Inr \<lparr>rq_Data = \<lparr>rd_BeforeHash = 1, rd_BeforeInbox = 2, rd_SequenceNum = 0, rd_TimeBounds = 3\<rparr>,
                  rq_NewMessages = []\<rparr>,
           followerEvents :=
             [ResponseEv (unanimousResponse 11 True sigA 8),
              ResponseEv (unanimousResponse 12 False sigB 8)]\<rparr>) [] True)) = [] \<and>
   mpq_step [] HasMessagesReq = Some ([], [HasMessagesReply False])"
  by (simp add: initiateUnanimousAssertionImpl_def inner_initiateUnanimousAssertionImpl_def
        unanimousAfterRequest_def unanimousFinish_def gatherSignatures_def env0_def val3_def
        queue2_def ValidatorCount_def indexNum_def unanimousResponse_def forceOnchain_def
        hashCall_def rejected_def notifyUnanimous_def unanimousRequest_def
        err_refused_def queue_after_def)

text \<open>
  C4, as amended. When the Bot's error arrives in place of the round's request, the
  caller gets \<open>false\<close> with that error and the fetched batch is put back at the head of
  the queue, and nothing is sent to the followers. When the request was delivered and
  the round then fails before the Bot is asked to confirm (the Bot's error arrives in
  place of its results, the hash or the signature fails, the gathered responses are not
  N - 1, or the first response that is not an acceptance with the coordinator's hash is
  a refusal or carries another hash), the round does only this: it starts the Bot's
  request, asks for signatures, possibly hashes and signs, and broadcasts one
  notification with \<open>Accepted = false\<close> under the round's id; the caller gets \<open>false\<close>
  with the error of that cause, and the batch is put back at the head of the queue,
  ahead of the messages sent meanwhile. A following \<open>HasMessages\<close> answers true exactly
  when the batch or those messages are not empty.
\<close>

theorem unanimous_failure_returns_batch:
  "(InitiateUnanimousRequest_request env = Inl err \<longrightarrow>
      initiateUnanimousAssertionImpl val env queue forceFinal =
        ([Bot_InitiateUnanimousRequest 10000 (map om_Message queue) forceFinal],
         Returns (False, Some err), queue @ arrivals env)) \<and>
   (InitiateUnanimousRequest_request env = Inr unanRequest \<longrightarrow>
    length (rq_NewMessages unanRequest) \<le> length queue \<longrightarrow>
    Validators val \<noteq> [] \<longrightarrow>
      (InitiateUnanimousRequest_results env = Inl err \<longrightarrow>
         (\<exists>request.
            initiateUnanimousAssertionImpl val env queue forceFinal =
              ([Bot_InitiateUnanimousRequest 10000 (map om_Message queue) forceFinal,
                SigRequest request (RequestHash env unanRequest),
                rejected (RequestHash env unanRequest)],
               Returns (False, Some err), queue @ arrivals env))) \<and>
      (InitiateUnanimousRequest_results env = Inr unanUpdate \<longrightarrow>
         (UnanimousAssertHash env (uu_SequenceNum (forceOnchain unanUpdate))
            (uu_BeforeHash (forceOnchain unanUpdate)) (uu_TimeBounds (forceOnchain unanUpdate))
            (uu_NewInboxHash (forceOnchain unanUpdate)) (uu_OriginalInboxHash (forceOnchain unanUpdate))
            (uu_Assertion (forceOnchain unanUpdate)) = Inl err \<longrightarrow>
            (\<exists>request.
               initiateUnanimousAssertionImpl val env queue forceFinal =
                 ([Bot_InitiateUnanimousRequest 10000 (map om_Message queue) forceFinal,
                   SigRequest request (RequestHash env unanRequest),
                   hashCall (forceOnchain unanUpdate),
                   rejected (RequestHash env unanRequest)],
                  Returns (False, Some err), queue @ arrivals env))) \<and>
         (UnanimousAssertHash env (uu_SequenceNum (forceOnchain unanUpdate))
            (uu_BeforeHash (forceOnchain unanUpdate)) (uu_TimeBounds (forceOnchain unanUpdate))
            (uu_NewInboxHash (forceOnchain unanUpdate)) (uu_OriginalInboxHash (forceOnchain unanUpdate))
            (uu_Assertion (forceOnchain unanUpdate)) = Inr unanHash \<longrightarrow>
            (Sign env unanHash = Inl err \<longrightarrow>
               (\<exists>request.
                  initiateUnanimousAssertionImpl val env queue forceFinal =
                    ([Bot_InitiateUnanimousRequest 10000 (map om_Message queue) forceFinal,
                      SigRequest request (RequestHash env unanRequest),
                      hashCall (forceOnchain unanUpdate),
                      Val_Sign unanHash,
                      rejected (RequestHash env unanRequest)],
                     Returns (False, Some err), queue @ arrivals env))) \<and>
            (Sign env unanHash = Inr sg \<longrightarrow>
             gatherLoop (ValidatorCount val - 1) [] (followerEvents env) = Some responses \<longrightarrow>
               (int (length responses) \<noteq> ValidatorCount val - 1 \<longrightarrow>
                  (\<exists>request.
                     initiateUnanimousAssertionImpl val env queue forceFinal =
                       ([Bot_InitiateUnanimousRequest 10000 (map om_Message queue) forceFinal,
                         SigRequest request (RequestHash env unanRequest),
                         hashCall (forceOnchain unanUpdate),
                         Val_Sign unanHash,
                         rejected (RequestHash env unanRequest)],
                        Returns (False, Some ''some Validators didn't respond''), queue @ arrivals env))) \<and>
               (int (length responses) = ValidatorCount val - 1 \<longrightarrow>
                indexNum (Validators val) (Address val) < length (Validators val) \<longrightarrow>
                responses = good @ r # rest \<longrightarrow>
                (\<forall>g\<in>set good. \<exists>s.
                   fr_Response (lfr_response g) = FollowerResponse_Unanimous True (Some s) unanHash) \<longrightarrow>
                (\<forall>g\<in>set good. indexNum (Validators val) (lfr_address g) < length (Validators val)) \<longrightarrow>
                  (fr_Response (lfr_response r) = FollowerResponse_Unanimous False sg' h' \<longrightarrow>
                     (\<exists>request.
                        initiateUnanimousAssertionImpl val env queue forceFinal =
                          ([Bot_InitiateUnanimousRequest 10000 (map om_Message queue) forceFinal,
                            SigRequest request (RequestHash env unanRequest),
                            hashCall (forceOnchain unanUpdate),
                            Val_Sign unanHash,
                            rejected (RequestHash env unanRequest)],
                           Returns (False, Some ''some Validators refused to sign''), queue @ arrivals env))) \<and>
                  (fr_Response (lfr_response r) = FollowerResponse_Unanimous True sg' h' \<longrightarrow>
                   h' \<noteq> unanHash \<longrightarrow>
                     (\<exists>request.
                        initiateUnanimousAssertionImpl val env queue forceFinal =
                          ([Bot_InitiateUnanimousRequest 10000 (map om_Message queue) forceFinal,
                            SigRequest request (RequestHash env unanRequest),
                            hashCall (forceOnchain unanUpdate),
                            Val_Sign unanHash,
                            rejected (RequestHash env unanRequest)],
                           Returns (False, Some ''some Validators signed the wrong assertion''), queue @ arrivals env)))))))) \<and>
   mpq_step (queue @ arrivals env) HasMessagesReq =
     Some (queue @ arrivals env, [HasMessagesReply (queue \<noteq> [] \<or> arrivals env \<noteq> [])])"
proof -
  let ?h = "RequestHash env unanRequest"
  let ?I = "Bot_InitiateUnanimousRequest 10000 (map om_Message queue) forceFinal"
  let ?S = "SigRequest
              \<lparr>vr_RequestId = Some ?h,
               vr_Request = ValidatorRequest_Unanimous
                 (unanimousRequest unanRequest
                    (map2 (\<lambda>msg q. \<lparr>sm_Message = msg, sm_Signature = om_Signature q\<rparr>)
                       (rq_NewMessages unanRequest) queue))\<rparr> ?h"
  let ?G = "case gatherLoop (ValidatorCount val - 1) [] (followerEvents env) of
              None \<Rightarrow> Blocks | Some rs \<Rightarrow> Returns rs"
  have early: "InitiateUnanimousRequest_request env = Inl err \<longrightarrow>
      initiateUnanimousAssertionImpl val env queue forceFinal =
        ([Bot_InitiateUnanimousRequest 10000 (map om_Message queue) forceFinal],
         Returns (False, Some err), queue @ arrivals env)"
    by (simp add: initiateUnanimousAssertionImpl_def inner_initiateUnanimousAssertionImpl_def)
  have has: "mpq_step (queue @ arrivals env) HasMessagesReq =
     Some (queue @ arrivals env, [HasMessagesReply (queue \<noteq> [] \<or> arrivals env \<noteq> [])])"
    by auto
  have late: "InitiateUnanimousRequest_request env = Inr unanRequest \<longrightarrow>
    length (rq_NewMessages unanRequest) \<le> length queue \<longrightarrow>
    Validators val \<noteq> [] \<longrightarrow>
      (InitiateUnanimousRequest_results env = Inl err \<longrightarrow>
         (\<exists>request.
            initiateUnanimousAssertionImpl val env queue forceFinal =
              ([Bot_InitiateUnanimousRequest 10000 (map om_Message queue) forceFinal,
                SigRequest request (RequestHash env unanRequest),
                rejected (RequestHash env unanRequest)],
               Returns (False, Some err), queue @ arrivals env))) \<and>
      (InitiateUnanimousRequest_results env = Inr unanUpdate \<longrightarrow>
         (UnanimousAssertHash env (uu_SequenceNum (forceOnchain unanUpdate))
            (uu_BeforeHash (forceOnchain unanUpdate)) (uu_TimeBounds (forceOnchain unanUpdate))
            (uu_NewInboxHash (forceOnchain unanUpdate)) (uu_OriginalInboxHash (forceOnchain unanUpdate))
            (uu_Assertion (forceOnchain unanUpdate)) = Inl err \<longrightarrow>
            (\<exists>request.
               initiateUnanimousAssertionImpl val env queue forceFinal =
                 ([Bot_InitiateUnanimousRequest 10000 (map om_Message queue) forceFinal,
                   SigRequest request (RequestHash env unanRequest),
                   hashCall (forceOnchain unanUpdate),
                   rejected (RequestHash env unanRequest)],
                  Returns (False, Some err), queue @ arrivals env))) \<and>
         (UnanimousAssertHash env (uu_SequenceNum (forceOnchain unanUpdate))
            (uu_BeforeHash (forceOnchain unanUpdate)) (uu_TimeBounds (forceOnchain unanUpdate))
            (uu_NewInboxHash (forceOnchain unanUpdate)) (uu_OriginalInboxHash (forceOnchain unanUpdate))
            (uu_Assertion (forceOnchain unanUpdate)) = Inr unanHash \<longrightarrow>
            (Sign env unanHash = Inl err \<longrightarrow>
               (\<exists>request.
                  initiateUnanimousAssertionImpl val env queue forceFinal =
                    ([Bot_InitiateUnanimousRequest 10000 (map om_Message queue) forceFinal,
                      SigRequest request (RequestHash env unanRequest),
                      hashCall (forceOnchain unanUpdate),
                      Val_Sign unanHash,
                      rejected (RequestHash env unanRequest)],
                     Returns (False, Some err), queue @ arrivals env))) \<and>
            (Sign env unanHash = Inr sg \<longrightarrow>
             gatherLoop (ValidatorCount val - 1) [] (followerEvents env) = Some responses \<longrightarrow>
               (int (length responses) \<noteq> ValidatorCount val - 1 \<longrightarrow>
                  (\<exists>request.
                     initiateUnanimousAssertionImpl val env queue forceFinal =
                       ([Bot_InitiateUnanimousRequest 10000 (map om_Message queue) forceFinal,
                         SigRequest request (RequestHash env unanRequest),
                         hashCall (forceOnchain unanUpdate),
                         Val_Sign unanHash,
                         rejected (RequestHash env unanRequest)],
                        Returns (False, Some ''some Validators didn't respond''), queue @ arrivals env))) \<and>
               (int (length responses) = ValidatorCount val - 1 \<longrightarrow>
                indexNum (Validators val) (Address val) < length (Validators val) \<longrightarrow>
                responses = good @ r # rest \<longrightarrow>
                (\<forall>g\<in>set good. \<exists>s.
                   fr_Response (lfr_response g) = FollowerResponse_Unanimous True (Some s) unanHash) \<longrightarrow>
                (\<forall>g\<in>set good. indexNum (Validators val) (lfr_address g) < length (Validators val)) \<longrightarrow>
                  (fr_Response (lfr_response r) = FollowerResponse_Unanimous False sg' h' \<longrightarrow>
                     (\<exists>request.
                        initiateUnanimousAssertionImpl val env queue forceFinal =
                          ([Bot_InitiateUnanimousRequest 10000 (map om_Message queue) forceFinal,
                            SigRequest request (RequestHash env unanRequest),
                            hashCall (forceOnchain unanUpdate),
                            Val_Sign unanHash,
                            rejected (RequestHash env unanRequest)],
                           Returns (False, Some ''some Validators refused to sign''), queue @ arrivals env))) \<and>
                  (fr_Response (lfr_response r) = FollowerResponse_Unanimous True sg' h' \<longrightarrow>
                   h' \<noteq> unanHash \<longrightarrow>
                     (\<exists>request.
                        initiateUnanimousAssertionImpl val env queue forceFinal =
                          ([Bot_InitiateUnanimousRequest 10000 (map om_Message queue) forceFinal,
                            SigRequest request (RequestHash env unanRequest),
                            hashCall (forceOnchain unanUpdate),
                            Val_Sign unanHash,
                            rejected (RequestHash env unanRequest)],
                           Returns (False, Some ''some Validators signed the wrong assertion''), queue @ arrivals env)))))))"
  proof (intro impI)
    assume req: "InitiateUnanimousRequest_request env = Inr unanRequest"
      and fits: "length (rq_NewMessages unanRequest) \<le> length queue"
      and ne: "Validators val \<noteq> []"
    have n: "\<not> ValidatorCount val - 1 < 0"
      using ne by (cases "Validators val") (simp_all add: ValidatorCount_def)
    have inner: "inner_initiateUnanimousAssertionImpl val env queue forceFinal =
        (case unanimousAfterRequest val env unanRequest ?h ?G of (tr, r) \<Rightarrow> (?I # ?S # tr, r))"
      using req fits n
      by (simp add: inner_initiateUnanimousAssertionImpl_def gatherSignatures_def
            buildRequestMessages_eq split: option.splits)
    have lift: "\<And>tr e. unanimousAfterRequest val env unanRequest ?h ?G = (tr, Returns (False, Some e)) \<Longrightarrow>
        initiateUnanimousAssertionImpl val env queue forceFinal =
          (?I # ?S # tr, Returns (False, Some e), queue @ arrivals env)"
      using inner by (simp add: initiateUnanimousAssertionImpl_def)
    have c1: "InitiateUnanimousRequest_results env = Inl err \<longrightarrow>
        (\<exists>request.
           initiateUnanimousAssertionImpl val env queue forceFinal =
             ([Bot_InitiateUnanimousRequest 10000 (map om_Message queue) forceFinal,
               SigRequest request (RequestHash env unanRequest),
               rejected (RequestHash env unanRequest)],
              Returns (False, Some err), queue @ arrivals env))"
    proof
      assume "InitiateUnanimousRequest_results env = Inl err"
      then have "unanimousAfterRequest val env unanRequest ?h ?G =
          ([rejected ?h], Returns (False, Some err))"
        by (simp add: unanimousAfterRequest_def)
      from lift[OF this] show "(\<exists>request.
           initiateUnanimousAssertionImpl val env queue forceFinal =
             ([Bot_InitiateUnanimousRequest 10000 (map om_Message queue) forceFinal,
               SigRequest request (RequestHash env unanRequest),
               rejected (RequestHash env unanRequest)],
              Returns (False, Some err), queue @ arrivals env))" by blast
    qed
    have c2: "InitiateUnanimousRequest_results env = Inr unanUpdate \<longrightarrow>
        UnanimousAssertHash env (uu_SequenceNum (forceOnchain unanUpdate))
          (uu_BeforeHash (forceOnchain unanUpdate)) (uu_TimeBounds (forceOnchain unanUpdate))
          (uu_NewInboxHash (forceOnchain unanUpdate)) (uu_OriginalInboxHash (forceOnchain unanUpdate))
          (uu_Assertion (forceOnchain unanUpdate)) = Inl err \<longrightarrow>
        (\<exists>request.
           initiateUnanimousAssertionImpl val env queue forceFinal =
             ([Bot_InitiateUnanimousRequest 10000 (map om_Message queue) forceFinal,
               SigRequest request (RequestHash env unanRequest),
               hashCall (forceOnchain unanUpdate),
               rejected (RequestHash env unanRequest)],
              Returns (False, Some err), queue @ arrivals env))"
    proof (intro impI)
      assume "InitiateUnanimousRequest_results env = Inr unanUpdate"
        and "UnanimousAssertHash env (uu_SequenceNum (forceOnchain unanUpdate))
          (uu_BeforeHash (forceOnchain unanUpdate)) (uu_TimeBounds (forceOnchain unanUpdate))
          (uu_NewInboxHash (forceOnchain unanUpdate)) (uu_OriginalInboxHash (forceOnchain unanUpdate))
          (uu_Assertion (forceOnchain unanUpdate)) = Inl err"
      then have "unanimousAfterRequest val env unanRequest ?h ?G =
          ([hashCall (forceOnchain unanUpdate), rejected ?h], Returns (False, Some err))"
        by (simp add: unanimousAfterRequest_def)
      from lift[OF this] show "(\<exists>request.
           initiateUnanimousAssertionImpl val env queue forceFinal =
             ([Bot_InitiateUnanimousRequest 10000 (map om_Message queue) forceFinal,
               SigRequest request (RequestHash env unanRequest),
               hashCall (forceOnchain unanUpdate),
               rejected (RequestHash env unanRequest)],
              Returns (False, Some err), queue @ arrivals env))" by blast
    qed
    have c3: "InitiateUnanimousRequest_results env = Inr unanUpdate \<longrightarrow>
        UnanimousAssertHash env (uu_SequenceNum (forceOnchain unanUpdate))
          (uu_BeforeHash (forceOnchain unanUpdate)) (uu_TimeBounds (forceOnchain unanUpdate))
          (uu_NewInboxHash (forceOnchain unanUpdate)) (uu_OriginalInboxHash (forceOnchain unanUpdate))
          (uu_Assertion (forceOnchain unanUpdate)) = Inr unanHash \<longrightarrow>
        Sign env unanHash = Inl err \<longrightarrow>
        (\<exists>request.
           initiateUnanimousAssertionImpl val env queue forceFinal =
             ([Bot_InitiateUnanimousRequest 10000 (map om_Message queue) forceFinal,
               SigRequest request (RequestHash env unanRequest),
               hashCall (forceOnchain unanUpdate),
               Val_Sign unanHash,
               rejected (RequestHash env unanRequest)],
              Returns (False, Some err), queue @ arrivals env))"
    proof (intro impI)
      assume "InitiateUnanimousRequest_results env = Inr unanUpdate"
        and "UnanimousAssertHash env (uu_SequenceNum (forceOnchain unanUpdate))
          (uu_BeforeHash (forceOnchain unanUpdate)) (uu_TimeBounds (forceOnchain unanUpdate))
          (uu_NewInboxHash (forceOnchain unanUpdate)) (uu_OriginalInboxHash (forceOnchain unanUpdate))
          (uu_Assertion (forceOnchain unanUpdate)) = Inr unanHash"
        and "Sign env unanHash = Inl err"
      then have "unanimousAfterRequest val env unanRequest ?h ?G =
          ([hashCall (forceOnchain unanUpdate), Val_Sign unanHash, rejected ?h],
           Returns (False, Some err))"
        by (simp add: unanimousAfterRequest_def)
      from lift[OF this] show "(\<exists>request.
           initiateUnanimousAssertionImpl val env queue forceFinal =
             ([Bot_InitiateUnanimousRequest 10000 (map om_Message queue) forceFinal,
               SigRequest request (RequestHash env unanRequest),
               hashCall (forceOnchain unanUpdate),
               Val_Sign unanHash,
               rejected (RequestHash env unanRequest)],
              Returns (False, Some err), queue @ arrivals env))" by blast
    qed
    have fin: "\<And>e. InitiateUnanimousRequest_results env = Inr unanUpdate \<Longrightarrow>
        UnanimousAssertHash env (uu_SequenceNum (forceOnchain unanUpdate))
          (uu_BeforeHash (forceOnchain unanUpdate)) (uu_TimeBounds (forceOnchain unanUpdate))
          (uu_NewInboxHash (forceOnchain unanUpdate)) (uu_OriginalInboxHash (forceOnchain unanUpdate))
          (uu_Assertion (forceOnchain unanUpdate)) = Inr unanHash \<Longrightarrow>
        Sign env unanHash = Inr sg \<Longrightarrow>
        gatherLoop (ValidatorCount val - 1) [] (followerEvents env) = Some responses \<Longrightarrow>
        unanimousFinish val env unanRequest ?h (forceOnchain unanUpdate) unanHash sg responses =
          ([rejected ?h], Returns (False, Some e)) \<Longrightarrow>
        \<exists>request.
          initiateUnanimousAssertionImpl val env queue forceFinal =
            ([?I, SigRequest request ?h, hashCall (forceOnchain unanUpdate), Val_Sign unanHash,
              rejected ?h],
             Returns (False, Some e), queue @ arrivals env)"
    proof -
      fix e
      assume "InitiateUnanimousRequest_results env = Inr unanUpdate"
        and "UnanimousAssertHash env (uu_SequenceNum (forceOnchain unanUpdate))
          (uu_BeforeHash (forceOnchain unanUpdate)) (uu_TimeBounds (forceOnchain unanUpdate))
          (uu_NewInboxHash (forceOnchain unanUpdate)) (uu_OriginalInboxHash (forceOnchain unanUpdate))
          (uu_Assertion (forceOnchain unanUpdate)) = Inr unanHash"
        and "Sign env unanHash = Inr sg"
        and "gatherLoop (ValidatorCount val - 1) [] (followerEvents env) = Some responses"
        and "unanimousFinish val env unanRequest ?h (forceOnchain unanUpdate) unanHash sg responses =
          ([rejected ?h], Returns (False, Some e))"
      then have "unanimousAfterRequest val env unanRequest ?h ?G =
          ([hashCall (forceOnchain unanUpdate), Val_Sign unanHash, rejected ?h],
           Returns (False, Some e))"
        by (simp add: unanimousAfterRequest_def)
      from lift[OF this] show "\<exists>request.
          initiateUnanimousAssertionImpl val env queue forceFinal =
            ([?I, SigRequest request ?h, hashCall (forceOnchain unanUpdate), Val_Sign unanHash,
              rejected ?h],
             Returns (False, Some e), queue @ arrivals env)" by blast
    qed
    have c4: "InitiateUnanimousRequest_results env = Inr unanUpdate \<longrightarrow>
        UnanimousAssertHash env (uu_SequenceNum (forceOnchain unanUpdate))
          (uu_BeforeHash (forceOnchain unanUpdate)) (uu_TimeBounds (forceOnchain unanUpdate))
          (uu_NewInboxHash (forceOnchain unanUpdate)) (uu_OriginalInboxHash (forceOnchain unanUpdate))
          (uu_Assertion (forceOnchain unanUpdate)) = Inr unanHash \<longrightarrow>
        Sign env unanHash = Inr sg \<longrightarrow>
        gatherLoop (ValidatorCount val - 1) [] (followerEvents env) = Some responses \<longrightarrow>
        int (length responses) \<noteq> ValidatorCount val - 1 \<longrightarrow>
        (\<exists>request.
           initiateUnanimousAssertionImpl val env queue forceFinal =
             ([Bot_InitiateUnanimousRequest 10000 (map om_Message queue) forceFinal,
               SigRequest request (RequestHash env unanRequest),
               hashCall (forceOnchain unanUpdate),
               Val_Sign unanHash,
               rejected (RequestHash env unanRequest)],
              Returns (False, Some ''some Validators didn't respond''), queue @ arrivals env))"
    proof (intro impI)
      assume a: "InitiateUnanimousRequest_results env = Inr unanUpdate"
        "UnanimousAssertHash env (uu_SequenceNum (forceOnchain unanUpdate))
          (uu_BeforeHash (forceOnchain unanUpdate)) (uu_TimeBounds (forceOnchain unanUpdate))
          (uu_NewInboxHash (forceOnchain unanUpdate)) (uu_OriginalInboxHash (forceOnchain unanUpdate))
          (uu_Assertion (forceOnchain unanUpdate)) = Inr unanHash"
        "Sign env unanHash = Inr sg"
        "gatherLoop (ValidatorCount val - 1) [] (followerEvents env) = Some responses"
        and short: "int (length responses) \<noteq> ValidatorCount val - 1"
      from short have "unanimousFinish val env unanRequest ?h (forceOnchain unanUpdate) unanHash sg responses =
          ([rejected ?h], Returns (False, Some ''some Validators didn't respond''))"
        by (simp add: unanimousFinish_def err_no_response_def)
      from fin[OF a this] show "(\<exists>request.
           initiateUnanimousAssertionImpl val env queue forceFinal =
             ([Bot_InitiateUnanimousRequest 10000 (map om_Message queue) forceFinal,
               SigRequest request (RequestHash env unanRequest),
               hashCall (forceOnchain unanUpdate),
               Val_Sign unanHash,
               rejected (RequestHash env unanRequest)],
              Returns (False, Some ''some Validators didn't respond''), queue @ arrivals env))" .
    qed
    have c5: "InitiateUnanimousRequest_results env = Inr unanUpdate \<longrightarrow>
        UnanimousAssertHash env (uu_SequenceNum (forceOnchain unanUpdate))
          (uu_BeforeHash (forceOnchain unanUpdate)) (uu_TimeBounds (forceOnchain unanUpdate))
          (uu_NewInboxHash (forceOnchain unanUpdate)) (uu_OriginalInboxHash (forceOnchain unanUpdate))
          (uu_Assertion (forceOnchain unanUpdate)) = Inr unanHash \<longrightarrow>
        Sign env unanHash = Inr sg \<longrightarrow>
        gatherLoop (ValidatorCount val - 1) [] (followerEvents env) = Some responses \<longrightarrow>
        int (length responses) = ValidatorCount val - 1 \<longrightarrow>
        indexNum (Validators val) (Address val) < length (Validators val) \<longrightarrow>
        responses = good @ r # rest \<longrightarrow>
        (\<forall>g\<in>set good. \<exists>s.
           fr_Response (lfr_response g) = FollowerResponse_Unanimous True (Some s) unanHash) \<longrightarrow>
        (\<forall>g\<in>set good. indexNum (Validators val) (lfr_address g) < length (Validators val)) \<longrightarrow>
        fr_Response (lfr_response r) = FollowerResponse_Unanimous False sg' h' \<longrightarrow>
        (\<exists>request.
           initiateUnanimousAssertionImpl val env queue forceFinal =
             ([Bot_InitiateUnanimousRequest 10000 (map om_Message queue) forceFinal,
               SigRequest request (RequestHash env unanRequest),
               hashCall (forceOnchain unanUpdate),
               Val_Sign unanHash,
               rejected (RequestHash env unanRequest)],
              Returns (False, Some ''some Validators refused to sign''), queue @ arrivals env))"
    proof (intro impI)
      assume a: "InitiateUnanimousRequest_results env = Inr unanUpdate"
        "UnanimousAssertHash env (uu_SequenceNum (forceOnchain unanUpdate))
          (uu_BeforeHash (forceOnchain unanUpdate)) (uu_TimeBounds (forceOnchain unanUpdate))
          (uu_NewInboxHash (forceOnchain unanUpdate)) (uu_OriginalInboxHash (forceOnchain unanUpdate))
          (uu_Assertion (forceOnchain unanUpdate)) = Inr unanHash"
        "Sign env unanHash = Inr sg"
        "gatherLoop (ValidatorCount val - 1) [] (followerEvents env) = Some responses"
        and full: "int (length responses) = ValidatorCount val - 1"
        and own: "indexNum (Validators val) (Address val) < length (Validators val)"
        and split: "responses = good @ r # rest"
        and good: "(\<forall>g\<in>set good. \<exists>s.
           fr_Response (lfr_response g) = FollowerResponse_Unanimous True (Some s) unanHash)"
        and goodi: "(\<forall>g\<in>set good. indexNum (Validators val) (lfr_address g) < length (Validators val))"
        and ref: "fr_Response (lfr_response r) = FollowerResponse_Unanimous False sg' h'"
      let ?sigs = "(replicate (nat (ValidatorCount val)) zeroSignature)
                     [indexNum (Validators val) (Address val) := sg]"
      let ?raws = "(replicate (nat (ValidatorCount val)) None)
                     [indexNum (Validators val) (Address val) := Some (toWire sg)]"
      have gi: "\<forall>g\<in>set good. indexNum (Validators val) (lfr_address g) < length ?sigs"
        using goodi by (simp add: ValidatorCount_def)
      have len: "length ?raws = length ?sigs" by simp
      from unanimousSignatures_refusal[OF good gi len ref]
      have "unanimousSignatures (Validators val) unanHash ?sigs ?raws responses =
          Inl (StopError err_refused)"
        using split by simp
      with full own have "unanimousFinish val env unanRequest ?h (forceOnchain unanUpdate) unanHash sg responses =
          ([rejected ?h], Returns (False, Some ''some Validators refused to sign''))"
        by (simp add: unanimousFinish_def err_refused_def ValidatorCount_def)
      from fin[OF a this] show "(\<exists>request.
           initiateUnanimousAssertionImpl val env queue forceFinal =
             ([Bot_InitiateUnanimousRequest 10000 (map om_Message queue) forceFinal,
               SigRequest request (RequestHash env unanRequest),
               hashCall (forceOnchain unanUpdate),
               Val_Sign unanHash,
               rejected (RequestHash env unanRequest)],
              Returns (False, Some ''some Validators refused to sign''), queue @ arrivals env))" .
    qed
    have c6: "InitiateUnanimousRequest_results env = Inr unanUpdate \<longrightarrow>
        UnanimousAssertHash env (uu_SequenceNum (forceOnchain unanUpdate))
          (uu_BeforeHash (forceOnchain unanUpdate)) (uu_TimeBounds (forceOnchain unanUpdate))
          (uu_NewInboxHash (forceOnchain unanUpdate)) (uu_OriginalInboxHash (forceOnchain unanUpdate))
          (uu_Assertion (forceOnchain unanUpdate)) = Inr unanHash \<longrightarrow>
        Sign env unanHash = Inr sg \<longrightarrow>
        gatherLoop (ValidatorCount val - 1) [] (followerEvents env) = Some responses \<longrightarrow>
        int (length responses) = ValidatorCount val - 1 \<longrightarrow>
        indexNum (Validators val) (Address val) < length (Validators val) \<longrightarrow>
        responses = good @ r # rest \<longrightarrow>
        (\<forall>g\<in>set good. \<exists>s.
           fr_Response (lfr_response g) = FollowerResponse_Unanimous True (Some s) unanHash) \<longrightarrow>
        (\<forall>g\<in>set good. indexNum (Validators val) (lfr_address g) < length (Validators val)) \<longrightarrow>
        fr_Response (lfr_response r) = FollowerResponse_Unanimous True sg' h' \<longrightarrow>
        h' \<noteq> unanHash \<longrightarrow>
        (\<exists>request.
           initiateUnanimousAssertionImpl val env queue forceFinal =
             ([Bot_InitiateUnanimousRequest 10000 (map om_Message queue) forceFinal,
               SigRequest request (RequestHash env unanRequest),
               hashCall (forceOnchain unanUpdate),
               Val_Sign unanHash,
               rejected (RequestHash env unanRequest)],
              Returns (False, Some ''some Validators signed the wrong assertion''), queue @ arrivals env))"
    proof (intro impI)
      assume a: "InitiateUnanimousRequest_results env = Inr unanUpdate"
        "UnanimousAssertHash env (uu_SequenceNum (forceOnchain unanUpdate))
          (uu_BeforeHash (forceOnchain unanUpdate)) (uu_TimeBounds (forceOnchain unanUpdate))
          (uu_NewInboxHash (forceOnchain unanUpdate)) (uu_OriginalInboxHash (forceOnchain unanUpdate))
          (uu_Assertion (forceOnchain unanUpdate)) = Inr unanHash"
        "Sign env unanHash = Inr sg"
        "gatherLoop (ValidatorCount val - 1) [] (followerEvents env) = Some responses"
        and full: "int (length responses) = ValidatorCount val - 1"
        and own: "indexNum (Validators val) (Address val) < length (Validators val)"
        and split: "responses = good @ r # rest"
        and good: "(\<forall>g\<in>set good. \<exists>s.
           fr_Response (lfr_response g) = FollowerResponse_Unanimous True (Some s) unanHash)"
        and goodi: "(\<forall>g\<in>set good. indexNum (Validators val) (lfr_address g) < length (Validators val))"
        and dis: "fr_Response (lfr_response r) = FollowerResponse_Unanimous True sg' h'"
          "h' \<noteq> unanHash"
      let ?sigs = "(replicate (nat (ValidatorCount val)) zeroSignature)
                     [indexNum (Validators val) (Address val) := sg]"
      let ?raws = "(replicate (nat (ValidatorCount val)) None)
                     [indexNum (Validators val) (Address val) := Some (toWire sg)]"
      have gi: "\<forall>g\<in>set good. indexNum (Validators val) (lfr_address g) < length ?sigs"
        using goodi by (simp add: ValidatorCount_def)
      have len: "length ?raws = length ?sigs" by simp
      from unanimousSignatures_disagreement[OF good gi len dis]
      have "unanimousSignatures (Validators val) unanHash ?sigs ?raws responses =
          Inl (StopError err_wrong_assertion)"
        using split by simp
      with full own have "unanimousFinish val env unanRequest ?h (forceOnchain unanUpdate) unanHash sg responses =
          ([rejected ?h], Returns (False, Some ''some Validators signed the wrong assertion''))"
        by (simp add: unanimousFinish_def err_wrong_assertion_def ValidatorCount_def)
      from fin[OF a this] show "(\<exists>request.
           initiateUnanimousAssertionImpl val env queue forceFinal =
             ([Bot_InitiateUnanimousRequest 10000 (map om_Message queue) forceFinal,
               SigRequest request (RequestHash env unanRequest),
               hashCall (forceOnchain unanUpdate),
               Val_Sign unanHash,
               rejected (RequestHash env unanRequest)],
              Returns (False, Some ''some Validators signed the wrong assertion''), queue @ arrivals env))" .
    qed
    from c1 c2 c3 c4 c5 c6
    show "(InitiateUnanimousRequest_results env = Inl err \<longrightarrow>
         (\<exists>request.
            initiateUnanimousAssertionImpl val env queue forceFinal =
              ([Bot_InitiateUnanimousRequest 10000 (map om_Message queue) forceFinal,
                SigRequest request (RequestHash env unanRequest),
                rejected (RequestHash env unanRequest)],
               Returns (False, Some err), queue @ arrivals env))) \<and>
      (InitiateUnanimousRequest_results env = Inr unanUpdate \<longrightarrow>
         (UnanimousAssertHash env (uu_SequenceNum (forceOnchain unanUpdate))
            (uu_BeforeHash (forceOnchain unanUpdate)) (uu_TimeBounds (forceOnchain unanUpdate))
            (uu_NewInboxHash (forceOnchain unanUpdate)) (uu_OriginalInboxHash (forceOnchain unanUpdate))
            (uu_Assertion (forceOnchain unanUpdate)) = Inl err \<longrightarrow>
            (\<exists>request.
               initiateUnanimousAssertionImpl val env queue forceFinal =
                 ([Bot_InitiateUnanimousRequest 10000 (map om_Message queue) forceFinal,
                   SigRequest request (RequestHash env unanRequest),
                   hashCall (forceOnchain unanUpdate),
                   rejected (RequestHash env unanRequest)],
                  Returns (False, Some err), queue @ arrivals env))) \<and>
         (UnanimousAssertHash env (uu_SequenceNum (forceOnchain unanUpdate))
            (uu_BeforeHash (forceOnchain unanUpdate)) (uu_TimeBounds (forceOnchain unanUpdate))
            (uu_NewInboxHash (forceOnchain unanUpdate)) (uu_OriginalInboxHash (forceOnchain unanUpdate))
            (uu_Assertion (forceOnchain unanUpdate)) = Inr unanHash \<longrightarrow>
            (Sign env unanHash = Inl err \<longrightarrow>
               (\<exists>request.
                  initiateUnanimousAssertionImpl val env queue forceFinal =
                    ([Bot_InitiateUnanimousRequest 10000 (map om_Message queue) forceFinal,
                      SigRequest request (RequestHash env unanRequest),
                      hashCall (forceOnchain unanUpdate),
                      Val_Sign unanHash,
                      rejected (RequestHash env unanRequest)],
                     Returns (False, Some err), queue @ arrivals env))) \<and>
            (Sign env unanHash = Inr sg \<longrightarrow>
             gatherLoop (ValidatorCount val - 1) [] (followerEvents env) = Some responses \<longrightarrow>
               (int (length responses) \<noteq> ValidatorCount val - 1 \<longrightarrow>
                  (\<exists>request.
                     initiateUnanimousAssertionImpl val env queue forceFinal =
                       ([Bot_InitiateUnanimousRequest 10000 (map om_Message queue) forceFinal,
                         SigRequest request (RequestHash env unanRequest),
                         hashCall (forceOnchain unanUpdate),
                         Val_Sign unanHash,
                         rejected (RequestHash env unanRequest)],
                        Returns (False, Some ''some Validators didn't respond''), queue @ arrivals env))) \<and>
               (int (length responses) = ValidatorCount val - 1 \<longrightarrow>
                indexNum (Validators val) (Address val) < length (Validators val) \<longrightarrow>
                responses = good @ r # rest \<longrightarrow>
                (\<forall>g\<in>set good. \<exists>s.
                   fr_Response (lfr_response g) = FollowerResponse_Unanimous True (Some s) unanHash) \<longrightarrow>
                (\<forall>g\<in>set good. indexNum (Validators val) (lfr_address g) < length (Validators val)) \<longrightarrow>
                  (fr_Response (lfr_response r) = FollowerResponse_Unanimous False sg' h' \<longrightarrow>
                     (\<exists>request.
                        initiateUnanimousAssertionImpl val env queue forceFinal =
                          ([Bot_InitiateUnanimousRequest 10000 (map om_Message queue) forceFinal,
                            SigRequest request (RequestHash env unanRequest),
                            hashCall (forceOnchain unanUpdate),
                            Val_Sign unanHash,
                            rejected (RequestHash env unanRequest)],
                           Returns (False, Some ''some Validators refused to sign''), queue @ arrivals env))) \<and>
                  (fr_Response (lfr_response r) = FollowerResponse_Unanimous True sg' h' \<longrightarrow>
                   h' \<noteq> unanHash \<longrightarrow>
                     (\<exists>request.
                        initiateUnanimousAssertionImpl val env queue forceFinal =
                          ([Bot_InitiateUnanimousRequest 10000 (map om_Message queue) forceFinal,
                            SigRequest request (RequestHash env unanRequest),
                            hashCall (forceOnchain unanUpdate),
                            Val_Sign unanHash,
                            rejected (RequestHash env unanRequest)],
                           Returns (False, Some ''some Validators signed the wrong assertion''), queue @ arrivals env)))))))"
      by blast
  qed
  from early late has show ?thesis by blast
qed

theorem unanimous_failure_returns_batch_witness:
  "initiateUnanimousAssertionImpl val3
     (env0\<lparr>InitiateUnanimousRequest_request := Inl ''bot failed''\<rparr>) queue2 False =
     ([Bot_InitiateUnanimousRequest 10000 (map om_Message queue2) False],
      Returns (False, Some ''bot failed''), queue2) \<and>
   (\<exists>request.
      initiateUnanimousAssertionImpl val3
        (env0\<lparr>InitiateUnanimousRequest_results := Inl ''bot failed''\<rparr>) queue2 False =
        ([Bot_InitiateUnanimousRequest 10000 (map om_Message queue2) False,
          SigRequest request 6,
          rejected 6],
         Returns (False, Some ''bot failed''), queue2)) \<and>
   (\<exists>request.
      initiateUnanimousAssertionImpl val3
        (env0\<lparr>followerEvents := [ResponseEv (unanimousResponse 11 True sigA 8), TimerEv]\<rparr>) queue2 False =
        ([Bot_InitiateUnanimousRequest 10000 (map om_Message queue2) False,
          SigRequest request 6,
          hashCall
            \<lparr>uu_SequenceNum = 0, uu_BeforeHash = 1, uu_TimeBounds = 3, uu_NewInboxHash = 8,
             uu_OriginalInboxHash = 2, uu_Assertion = \<lparr>as_AfterHash = 11, as_OutMsgs = []\<rparr>\<rparr>,
          Val_Sign 8,
          rejected 6],
         Returns (False, Some ''some Validators didn't respond''), queue2)) \<and>
   (\<exists>request.
      initiateUnanimousAssertionImpl val3
        (env0\<lparr>followerEvents :=
               [ResponseEv (unanimousResponse 11 True sigA 8),
                ResponseEv (unanimousResponse 12 False sigB 8)]\<rparr>) queue2 False =
        ([Bot_InitiateUnanimousRequest 10000 (map om_Message queue2) False,
          SigRequest request 6,
          hashCall
            \<lparr>uu_SequenceNum = 0, uu_BeforeHash = 1, uu_TimeBounds = 3, uu_NewInboxHash = 8,
             uu_OriginalInboxHash = 2, uu_Assertion = \<lparr>as_AfterHash = 11, as_OutMsgs = []\<rparr>\<rparr>,
          Val_Sign 8,
          rejected 6],
         Returns (False, Some ''some Validators refused to sign''), queue2)) \<and>
   (\<exists>request.
      initiateUnanimousAssertionImpl val3
        (env0\<lparr>followerEvents :=
               [ResponseEv (unanimousResponse 11 True sigA 8),
                ResponseEv (unanimousResponse 12 True sigB 7)]\<rparr>) queue2 False =
        ([Bot_InitiateUnanimousRequest 10000 (map om_Message queue2) False,
          SigRequest request 6,
          hashCall
            \<lparr>uu_SequenceNum = 0, uu_BeforeHash = 1, uu_TimeBounds = 3, uu_NewInboxHash = 8,
             uu_OriginalInboxHash = 2, uu_Assertion = \<lparr>as_AfterHash = 11, as_OutMsgs = []\<rparr>\<rparr>,
          Val_Sign 8,
          rejected 6],
         Returns (False, Some ''some Validators signed the wrong assertion''), queue2)) \<and>
   mpq_step queue2 HasMessagesReq = Some (queue2, [HasMessagesReply True])"
proof -
  let ?req = "\<lparr>rq_Data = \<lparr>rd_BeforeHash = 1, rd_BeforeInbox = 2, rd_SequenceNum = 0, rd_TimeBounds = 3\<rparr>,
                rq_NewMessages = [40, 41]\<rparr>"
  let ?upd = "\<lparr>uu_SequenceNum = 0, uu_BeforeHash = 1, uu_TimeBounds = 3, uu_NewInboxHash = 8,
                uu_OriginalInboxHash = 2, uu_Assertion = \<lparr>as_AfterHash = 11, as_OutMsgs = []\<rparr>\<rparr>"
  let ?a = "unanimousResponse 11 True sigA 8"
  let ?b = "unanimousResponse 12 False sigB 8"
  let ?c = "unanimousResponse 12 True sigB 7"
  let ?envE = "env0\<lparr>InitiateUnanimousRequest_request := Inl ''bot failed''\<rparr>"
  let ?envR = "env0\<lparr>InitiateUnanimousRequest_results := Inl ''bot failed''\<rparr>"
  let ?envS = "env0\<lparr>followerEvents := [ResponseEv ?a, TimerEv]\<rparr>"
  let ?envF = "env0\<lparr>followerEvents := [ResponseEv ?a, ResponseEv ?b]\<rparr>"
  let ?envD = "env0\<lparr>followerEvents := [ResponseEv ?a, ResponseEv ?c]\<rparr>"
  have fits: "length (rq_NewMessages ?req) \<le> length queue2" by (simp add: queue2_def)
  have ne: "Validators val3 \<noteq> []" by (simp add: val3_def)
  have own: "indexNum (Validators val3) (Address val3) < length (Validators val3)"
    by (simp add: val3_def indexNum_def)
  have fo: "forceOnchain ?upd = ?upd" by (simp add: forceOnchain_def)
  have good: "\<forall>g\<in>set [?a]. \<exists>s.
      fr_Response (lfr_response g) = FollowerResponse_Unanimous True (Some s) 8"
    by (simp add: unanimousResponse_def)
  have goodi: "\<forall>g\<in>set [?a]. indexNum (Validators val3) (lfr_address g) < length (Validators val3)"
    by (simp add: unanimousResponse_def val3_def indexNum_def)
  have reqE: "InitiateUnanimousRequest_request ?envE = Inl ''bot failed''" by simp
  have arrE: "arrivals ?envE = []" by (simp add: env0_def)
  note tE = unanimous_failure_returns_batch
      [where val = val3 and queue = queue2 and forceFinal = False and env = "?envE"
         and unanRequest = "?req" and unanUpdate = "?upd" and unanHash = 8 and sg = ownSig and err = "''bot failed''"]
  have wE: "initiateUnanimousAssertionImpl val3 ?envE queue2 False =
        ([Bot_InitiateUnanimousRequest 10000 (map om_Message queue2) False],
         Returns (False, Some ''bot failed''), queue2 @ arrivals ?envE)"
    by (rule tE[THEN conjunct1, THEN mp, OF reqE])
  have reqR: "InitiateUnanimousRequest_request ?envR = Inr ?req" by (simp add: env0_def)
  have arrR: "arrivals ?envR = []" by (simp add: env0_def)
  have rhR: "RequestHash ?envR ?req = 6" by (simp add: env0_def)
  have resR: "InitiateUnanimousRequest_results ?envR = Inl ''bot failed''" by simp
  note tR = unanimous_failure_returns_batch
      [where val = val3 and queue = queue2 and forceFinal = False and env = "?envR"
         and unanRequest = "?req" and unanUpdate = "?upd" and unanHash = 8 and sg = ownSig and err = "''bot failed''"]
  have wR: "\<exists>request. initiateUnanimousAssertionImpl val3 ?envR queue2 False =
        ([Bot_InitiateUnanimousRequest 10000 (map om_Message queue2) False,
          SigRequest request (RequestHash ?envR ?req),
          rejected (RequestHash ?envR ?req)],
         Returns (False, Some ''bot failed''), queue2 @ arrivals ?envR)"
    by (rule tR[THEN conjunct2, THEN conjunct1, THEN mp, OF reqR, THEN mp, OF fits, THEN mp, OF ne, THEN conjunct1, THEN mp, OF resR])
  have reqS: "InitiateUnanimousRequest_request ?envS = Inr ?req" by (simp add: env0_def)
  have arrS: "arrivals ?envS = []" by (simp add: env0_def)
  have rhS: "RequestHash ?envS ?req = 6" by (simp add: env0_def)
  have resS: "InitiateUnanimousRequest_results ?envS = Inr ?upd" by (simp add: env0_def)
  have hashS: "UnanimousAssertHash ?envS (uu_SequenceNum (forceOnchain ?upd))
           (uu_BeforeHash (forceOnchain ?upd)) (uu_TimeBounds (forceOnchain ?upd))
           (uu_NewInboxHash (forceOnchain ?upd)) (uu_OriginalInboxHash (forceOnchain ?upd))
           (uu_Assertion (forceOnchain ?upd)) = Inr 8"
    by (simp add: env0_def forceOnchain_def)
  have signS: "Sign ?envS 8 = Inr ownSig" by (simp add: env0_def)
  have glS: "gatherLoop (ValidatorCount val3 - 1) [] (followerEvents ?envS) = Some [?a]"
    by (simp add: val3_def ValidatorCount_def)
  have lenS: "int (length [?a]) \<noteq> ValidatorCount val3 - 1"
    by (simp add: val3_def ValidatorCount_def)
  note tS = unanimous_failure_returns_batch
      [where val = val3 and queue = queue2 and forceFinal = False and env = "?envS"
         and unanRequest = "?req" and unanUpdate = "?upd" and unanHash = 8 and sg = ownSig and responses = "[?a]"]
  have wS: "\<exists>request. initiateUnanimousAssertionImpl val3 ?envS queue2 False =
        ([Bot_InitiateUnanimousRequest 10000 (map om_Message queue2) False,
          SigRequest request (RequestHash ?envS ?req),
          hashCall (forceOnchain ?upd),
          Val_Sign 8,
          rejected (RequestHash ?envS ?req)],
         Returns (False, Some ''some Validators didn't respond''), queue2 @ arrivals ?envS)"
    by (rule tS[THEN conjunct2, THEN conjunct1, THEN mp, OF reqS, THEN mp, OF fits, THEN mp, OF ne,
      THEN conjunct2, THEN mp, OF resS, THEN conjunct2, THEN mp, OF hashS,
      THEN conjunct2, THEN mp, OF signS, THEN mp, OF glS,
      THEN conjunct1, THEN mp, OF lenS])
  have reqF: "InitiateUnanimousRequest_request ?envF = Inr ?req" by (simp add: env0_def)
  have arrF: "arrivals ?envF = []" by (simp add: env0_def)
  have rhF: "RequestHash ?envF ?req = 6" by (simp add: env0_def)
  have resF: "InitiateUnanimousRequest_results ?envF = Inr ?upd" by (simp add: env0_def)
  have hashF: "UnanimousAssertHash ?envF (uu_SequenceNum (forceOnchain ?upd))
           (uu_BeforeHash (forceOnchain ?upd)) (uu_TimeBounds (forceOnchain ?upd))
           (uu_NewInboxHash (forceOnchain ?upd)) (uu_OriginalInboxHash (forceOnchain ?upd))
           (uu_Assertion (forceOnchain ?upd)) = Inr 8"
    by (simp add: env0_def forceOnchain_def)
  have signF: "Sign ?envF 8 = Inr ownSig" by (simp add: env0_def)
  have glF: "gatherLoop (ValidatorCount val3 - 1) [] (followerEvents ?envF) = Some [?a, ?b]"
    by (simp add: val3_def ValidatorCount_def)
  have lenF: "int (length [?a, ?b]) = ValidatorCount val3 - 1"
    by (simp add: val3_def ValidatorCount_def)
  have splitF: "[?a, ?b] = [?a] @ ?b # []" by simp
  have refF: "fr_Response (lfr_response ?b) = FollowerResponse_Unanimous False (Some sigB) 8"
    by (simp add: unanimousResponse_def)
  note tF = unanimous_failure_returns_batch
      [where val = val3 and queue = queue2 and forceFinal = False and env = "?envF"
         and unanRequest = "?req" and unanUpdate = "?upd" and unanHash = 8 and sg = ownSig and responses = "[?a, ?b]" and good = "[?a]" and r = "?b" and rest = "[]"
         and sg' = "Some sigB" and h' = 8]
  have wF: "\<exists>request. initiateUnanimousAssertionImpl val3 ?envF queue2 False =
        ([Bot_InitiateUnanimousRequest 10000 (map om_Message queue2) False,
          SigRequest request (RequestHash ?envF ?req),
          hashCall (forceOnchain ?upd),
          Val_Sign 8,
          rejected (RequestHash ?envF ?req)],
         Returns (False, Some ''some Validators refused to sign''), queue2 @ arrivals ?envF)"
    by (rule tF[THEN conjunct2, THEN conjunct1, THEN mp, OF reqF, THEN mp, OF fits, THEN mp, OF ne,
      THEN conjunct2, THEN mp, OF resF, THEN conjunct2, THEN mp, OF hashF,
      THEN conjunct2, THEN mp, OF signF, THEN mp, OF glF,
      THEN conjunct2, THEN mp, OF lenF, THEN mp, OF own, THEN mp, OF splitF,
      THEN mp, OF good, THEN mp, OF goodi,
      THEN conjunct1, THEN mp, OF refF])
  have reqD: "InitiateUnanimousRequest_request ?envD = Inr ?req" by (simp add: env0_def)
  have arrD: "arrivals ?envD = []" by (simp add: env0_def)
  have rhD: "RequestHash ?envD ?req = 6" by (simp add: env0_def)
  have resD: "InitiateUnanimousRequest_results ?envD = Inr ?upd" by (simp add: env0_def)
  have hashD: "UnanimousAssertHash ?envD (uu_SequenceNum (forceOnchain ?upd))
           (uu_BeforeHash (forceOnchain ?upd)) (uu_TimeBounds (forceOnchain ?upd))
           (uu_NewInboxHash (forceOnchain ?upd)) (uu_OriginalInboxHash (forceOnchain ?upd))
           (uu_Assertion (forceOnchain ?upd)) = Inr 8"
    by (simp add: env0_def forceOnchain_def)
  have signD: "Sign ?envD 8 = Inr ownSig" by (simp add: env0_def)
  have glD: "gatherLoop (ValidatorCount val3 - 1) [] (followerEvents ?envD) = Some [?a, ?c]"
    by (simp add: val3_def ValidatorCount_def)
  have lenD: "int (length [?a, ?c]) = ValidatorCount val3 - 1"
    by (simp add: val3_def ValidatorCount_def)
  have splitD: "[?a, ?c] = [?a] @ ?c # []" by simp
  have disD: "fr_Response (lfr_response ?c) = FollowerResponse_Unanimous True (Some sigB) 7"
    "(7::nat) \<noteq> 8"
    by (simp_all add: unanimousResponse_def)
  note tD = unanimous_failure_returns_batch
      [where val = val3 and queue = queue2 and forceFinal = False and env = "?envD"
         and unanRequest = "?req" and unanUpdate = "?upd" and unanHash = 8 and sg = ownSig and responses = "[?a, ?c]" and good = "[?a]" and r = "?c" and rest = "[]"
         and sg' = "Some sigB" and h' = 7]
  have wD: "\<exists>request. initiateUnanimousAssertionImpl val3 ?envD queue2 False =
        ([Bot_InitiateUnanimousRequest 10000 (map om_Message queue2) False,
          SigRequest request (RequestHash ?envD ?req),
          hashCall (forceOnchain ?upd),
          Val_Sign 8,
          rejected (RequestHash ?envD ?req)],
         Returns (False, Some ''some Validators signed the wrong assertion''), queue2 @ arrivals ?envD)"
    by (rule tD[THEN conjunct2, THEN conjunct1, THEN mp, OF reqD, THEN mp, OF fits, THEN mp, OF ne,
      THEN conjunct2, THEN mp, OF resD, THEN conjunct2, THEN mp, OF hashD,
      THEN conjunct2, THEN mp, OF signD, THEN mp, OF glD,
      THEN conjunct2, THEN mp, OF lenD, THEN mp, OF own, THEN mp, OF splitD,
      THEN mp, OF good, THEN mp, OF goodi,
      THEN conjunct2, THEN mp, OF disD(1), THEN mp, OF disD(2)])
  have wH: "mpq_step (queue2 @ arrivals ?envF) HasMessagesReq =
      Some (queue2 @ arrivals ?envF, [HasMessagesReply (queue2 \<noteq> [] \<or> arrivals ?envF \<noteq> [])])"
    by (rule tF[THEN conjunct2, THEN conjunct2])
  have q: "queue2 \<noteq> []" by (simp add: queue2_def)
  show ?thesis
    using wE wR wS wF wD wH q
    by (simp only: arrE arrR arrS arrF arrD rhR rhS rhF rhD fo append_Nil2 simp_thms)
qed

text \<open>
  C5. For a unanimous round that returns without error: when the Bot's results hold an
  outgoing message the sequence number is \<open>MaxUint64\<close> from then on; the hash is
  computed from the possibly overwritten sequence number and the other fields of the
  results, and that hash is what the coordinator signs; when the sequence number is
  \<open>MaxUint64\<close>, the round ends, after the Bot's confirmation, with the call of
  \<open>CloseUnanimousAssertionRequest\<close>, whose answer is returned; when it is not, the
  round returns true after the confirmation and never asks to close.
\<close>

theorem outgoing_messages_force_final:
  assumes "initiateUnanimousAssertionImpl val env queue forceFinal = (tr, Returns (b, None), queue')"
      and "InitiateUnanimousRequest_results env = Inr unanUpdate"
  shows "(as_OutMsgs (uu_Assertion unanUpdate) \<noteq> [] \<longrightarrow>
            uu_SequenceNum (forceOnchain unanUpdate) = - 1) \<and>
         (\<exists>unanHash.
            UnanimousAssertHash env (uu_SequenceNum (forceOnchain unanUpdate))
              (uu_BeforeHash unanUpdate) (uu_TimeBounds unanUpdate) (uu_NewInboxHash unanUpdate)
              (uu_OriginalInboxHash unanUpdate) (uu_Assertion unanUpdate) = Inr unanHash \<and>
            Val_UnanimousAssertHash (uu_SequenceNum (forceOnchain unanUpdate))
              (uu_BeforeHash unanUpdate) (uu_TimeBounds unanUpdate) (uu_NewInboxHash unanUpdate)
              (uu_OriginalInboxHash unanUpdate) (uu_Assertion unanUpdate) \<in> set tr \<and>
            Val_Sign unanHash \<in> set tr) \<and>
         (uu_SequenceNum (forceOnchain unanUpdate) = - 1 \<longrightarrow>
            b = CloseUnanimousAssertionRequest env \<and>
            (\<exists>pre d signatures.
               tr = pre @ [Bot_ConfirmOffchainUnanimousAssertion d signatures,
                           Bot_CloseUnanimousAssertionRequest])) \<and>
         (uu_SequenceNum (forceOnchain unanUpdate) \<noteq> - 1 \<longrightarrow>
            b \<and> Bot_CloseUnanimousAssertionRequest \<notin> set tr \<and>
            (\<exists>pre d signatures. tr = pre @ [Bot_ConfirmOffchainUnanimousAssertion d signatures]))"
proof -
  from assms(1) obtain tr0 isFinal where
    inner: "inner_initiateUnanimousAssertionImpl val env queue forceFinal = (tr0, Returns (isFinal, None))"
    and out: "if isFinal
              then tr = tr0 @ [Bot_CloseUnanimousAssertionRequest] \<and> b = CloseUnanimousAssertionRequest env
              else tr = tr0 \<and> b"
    by (auto simp: initiateUnanimousAssertionImpl_def
             split: prod.splits exec.splits option.splits if_splits)
  from inner_success[OF inner] assms(2) obtain unanRequest unanHash signatures rawSignatures request where
    h: "UnanimousAssertHash env
         (uu_SequenceNum (forceOnchain unanUpdate)) (uu_BeforeHash (forceOnchain unanUpdate))
         (uu_TimeBounds (forceOnchain unanUpdate)) (uu_NewInboxHash (forceOnchain unanUpdate))
         (uu_OriginalInboxHash (forceOnchain unanUpdate))
         (uu_Assertion (forceOnchain unanUpdate)) = Inr unanHash"
    and tr0: "tr0 = [Bot_InitiateUnanimousRequest 10000 (map om_Message queue) forceFinal,
             SigRequest request (RequestHash env unanRequest),
             hashCall (forceOnchain unanUpdate), Val_Sign unanHash,
             notifyUnanimous (RequestHash env unanRequest)
               \<lparr>un_Accepted = True, un_Signatures = rawSignatures\<rparr>,
             Bot_ConfirmOffchainUnanimousAssertion (rq_Data unanRequest) signatures]"
    and fin: "isFinal = (uu_SequenceNum (forceOnchain unanUpdate) = - 1)"
    by auto
  have same: "uu_BeforeHash (forceOnchain unanUpdate) = uu_BeforeHash unanUpdate"
    "uu_TimeBounds (forceOnchain unanUpdate) = uu_TimeBounds unanUpdate"
    "uu_NewInboxHash (forceOnchain unanUpdate) = uu_NewInboxHash unanUpdate"
    "uu_OriginalInboxHash (forceOnchain unanUpdate) = uu_OriginalInboxHash unanUpdate"
    "uu_Assertion (forceOnchain unanUpdate) = uu_Assertion unanUpdate"
    by (simp_all add: forceOnchain_def)
  have a: "as_OutMsgs (uu_Assertion unanUpdate) \<noteq> [] \<longrightarrow>
            uu_SequenceNum (forceOnchain unanUpdate) = - 1"
    by (simp add: forceOnchain_def)
  have mem: "hashCall (forceOnchain unanUpdate) \<in> set tr" "Val_Sign unanHash \<in> set tr"
    using out tr0 by (auto split: if_splits)
  have c: "\<exists>unanHash.
            UnanimousAssertHash env (uu_SequenceNum (forceOnchain unanUpdate))
              (uu_BeforeHash unanUpdate) (uu_TimeBounds unanUpdate) (uu_NewInboxHash unanUpdate)
              (uu_OriginalInboxHash unanUpdate) (uu_Assertion unanUpdate) = Inr unanHash \<and>
            Val_UnanimousAssertHash (uu_SequenceNum (forceOnchain unanUpdate))
              (uu_BeforeHash unanUpdate) (uu_TimeBounds unanUpdate) (uu_NewInboxHash unanUpdate)
              (uu_OriginalInboxHash unanUpdate) (uu_Assertion unanUpdate) \<in> set tr \<and>
            Val_Sign unanHash \<in> set tr"
    using h mem by (auto simp: hashCall_def same)
  have d: "uu_SequenceNum (forceOnchain unanUpdate) = - 1 \<longrightarrow>
            b = CloseUnanimousAssertionRequest env \<and>
            (\<exists>pre d signatures.
               tr = pre @ [Bot_ConfirmOffchainUnanimousAssertion d signatures,
                           Bot_CloseUnanimousAssertionRequest])"
    using out fin tr0 by auto
  have e: "uu_SequenceNum (forceOnchain unanUpdate) \<noteq> - 1 \<longrightarrow>
            b \<and> Bot_CloseUnanimousAssertionRequest \<notin> set tr \<and>
            (\<exists>pre d signatures. tr = pre @ [Bot_ConfirmOffchainUnanimousAssertion d signatures])"
    using out fin tr0 by (auto simp: hashCall_def notifyUnanimous_def)
  from a c d e show ?thesis by blast
qed

theorem outgoing_messages_force_final_witness:
  "initiateUnanimousAssertionImpl val3
     (env0\<lparr>InitiateUnanimousRequest_results :=
             Inr \<lparr>uu_SequenceNum = 4, uu_BeforeHash = 1, uu_TimeBounds = 3, uu_NewInboxHash = 8,
                  uu_OriginalInboxHash = 2,
                  uu_Assertion = \<lparr>as_AfterHash = 11, as_OutMsgs = [50, 51]\<rparr>\<rparr>,
           followerEvents :=
             [ResponseEv (unanimousResponse 11 True sigA 9),
              ResponseEv (unanimousResponse 12 True sigB 9)]\<rparr>) queue2 False =
     ([Bot_InitiateUnanimousRequest 10000 [40, 41] False,
       SigRequest
         \<lparr>vr_RequestId = Some 6,
          vr_Request = ValidatorRequest_Unanimous
            \<lparr>ur_BeforeHash = 1, ur_BeforeInbox = 2, ur_SequenceNum = 0, ur_TimeBounds = 3,
             ur_SignedMessages =
               [\<lparr>sm_Message = 40, sm_Signature = [1]\<rparr>, \<lparr>sm_Message = 41, sm_Signature = [2]\<rparr>]\<rparr>\<rparr> 6,
       Val_UnanimousAssertHash (- 1) 1 3 8 2 \<lparr>as_AfterHash = 11, as_OutMsgs = [50, 51]\<rparr>,
       Val_Sign 9,
       Broadcast \<lparr>vr_RequestId = Some 6,
                  vr_Request = ValidatorRequest_UnanimousNotification
                    \<lparr>un_Accepted = True,
                     un_Signatures = [Some (toWire ownSig), Some sigA, Some sigB]\<rparr>\<rparr>,
       Bot_ConfirmOffchainUnanimousAssertion
         \<lparr>rd_BeforeHash = 1, rd_BeforeInbox = 2, rd_SequenceNum = 0, rd_TimeBounds = 3\<rparr>
         [ownSig, fromWire sigA, fromWire sigB],
       Bot_CloseUnanimousAssertionRequest],
      Returns (True, None), []) \<and>
   initiateUnanimousAssertionImpl val3
     (env0\<lparr>followerEvents :=
             [ResponseEv (unanimousResponse 11 True sigA 8),
              ResponseEv (unanimousResponse 12 True sigB 8)]\<rparr>) queue2 False =
     ([Bot_InitiateUnanimousRequest 10000 [40, 41] False,
       SigRequest
         \<lparr>vr_RequestId = Some 6,
          vr_Request = ValidatorRequest_Unanimous
            \<lparr>ur_BeforeHash = 1, ur_BeforeInbox = 2, ur_SequenceNum = 0, ur_TimeBounds = 3,
             ur_SignedMessages =
               [\<lparr>sm_Message = 40, sm_Signature = [1]\<rparr>, \<lparr>sm_Message = 41, sm_Signature = [2]\<rparr>]\<rparr>\<rparr> 6,
       Val_UnanimousAssertHash 0 1 3 8 2 \<lparr>as_AfterHash = 11, as_OutMsgs = []\<rparr>,
       Val_Sign 8,
       Broadcast \<lparr>vr_RequestId = Some 6,
                  vr_Request = ValidatorRequest_UnanimousNotification
                    \<lparr>un_Accepted = True,
                     un_Signatures = [Some (toWire ownSig), Some sigA, Some sigB]\<rparr>\<rparr>,
       Bot_ConfirmOffchainUnanimousAssertion
         \<lparr>rd_BeforeHash = 1, rd_BeforeInbox = 2, rd_SequenceNum = 0, rd_TimeBounds = 3\<rparr>
         [ownSig, fromWire sigA, fromWire sigB]],
      Returns (True, None), [])"
proof -
  let ?upd = "\<lparr>uu_SequenceNum = 4, uu_BeforeHash = 1, uu_TimeBounds = 3, uu_NewInboxHash = 8,
                  uu_OriginalInboxHash = 2,
                  uu_Assertion = \<lparr>as_AfterHash = 11, as_OutMsgs = [50, 51]\<rparr>\<rparr>"
  let ?envOut = "env0\<lparr>InitiateUnanimousRequest_results := Inr ?upd,
           followerEvents :=
             [ResponseEv (unanimousResponse 11 True sigA 9),
              ResponseEv (unanimousResponse 12 True sigB 9)]\<rparr>"
  let ?envKeep = "env0\<lparr>followerEvents :=
             [ResponseEv (unanimousResponse 11 True sigA 8),
              ResponseEv (unanimousResponse 12 True sigB 8)]\<rparr>"
  have r1: "InitiateUnanimousRequest_results ?envOut = Inr ?upd" by simp
  have run1: "initiateUnanimousAssertionImpl val3 ?envOut queue2 False =
     ([Bot_InitiateUnanimousRequest 10000 [40, 41] False,
       SigRequest
         \<lparr>vr_RequestId = Some 6,
          vr_Request = ValidatorRequest_Unanimous
            \<lparr>ur_BeforeHash = 1, ur_BeforeInbox = 2, ur_SequenceNum = 0, ur_TimeBounds = 3,
             ur_SignedMessages =
               [\<lparr>sm_Message = 40, sm_Signature = [1]\<rparr>, \<lparr>sm_Message = 41, sm_Signature = [2]\<rparr>]\<rparr>\<rparr> 6,
       Val_UnanimousAssertHash (- 1) 1 3 8 2 \<lparr>as_AfterHash = 11, as_OutMsgs = [50, 51]\<rparr>,
       Val_Sign 9,
       Broadcast \<lparr>vr_RequestId = Some 6,
                  vr_Request = ValidatorRequest_UnanimousNotification
                    \<lparr>un_Accepted = True,
                     un_Signatures = [Some (toWire ownSig), Some sigA, Some sigB]\<rparr>\<rparr>,
       Bot_ConfirmOffchainUnanimousAssertion
         \<lparr>rd_BeforeHash = 1, rd_BeforeInbox = 2, rd_SequenceNum = 0, rd_TimeBounds = 3\<rparr>
         [ownSig, fromWire sigA, fromWire sigB],
       Bot_CloseUnanimousAssertionRequest],
      Returns (True, None), [])"
    by (simp add: initiateUnanimousAssertionImpl_def inner_initiateUnanimousAssertionImpl_def
        unanimousAfterRequest_def unanimousFinish_def gatherSignatures_def env0_def val3_def
        queue2_def ValidatorCount_def indexNum_def unanimousResponse_def forceOnchain_def
        hashCall_def rejected_def notifyUnanimous_def unanimousRequest_def queue_after_def
        numeral_3_eq_3 numeral_2_eq_2)
  have r2: "InitiateUnanimousRequest_results ?envKeep =
      Inr \<lparr>uu_SequenceNum = 0, uu_BeforeHash = 1, uu_TimeBounds = 3, uu_NewInboxHash = 8,
             uu_OriginalInboxHash = 2, uu_Assertion = \<lparr>as_AfterHash = 11, as_OutMsgs = []\<rparr>\<rparr>"
    by (simp add: env0_def)
  have run2: "initiateUnanimousAssertionImpl val3 ?envKeep queue2 False =
     ([Bot_InitiateUnanimousRequest 10000 [40, 41] False,
       SigRequest
         \<lparr>vr_RequestId = Some 6,
          vr_Request = ValidatorRequest_Unanimous
            \<lparr>ur_BeforeHash = 1, ur_BeforeInbox = 2, ur_SequenceNum = 0, ur_TimeBounds = 3,
             ur_SignedMessages =
               [\<lparr>sm_Message = 40, sm_Signature = [1]\<rparr>, \<lparr>sm_Message = 41, sm_Signature = [2]\<rparr>]\<rparr>\<rparr> 6,
       Val_UnanimousAssertHash 0 1 3 8 2 \<lparr>as_AfterHash = 11, as_OutMsgs = []\<rparr>,
       Val_Sign 8,
       Broadcast \<lparr>vr_RequestId = Some 6,
                  vr_Request = ValidatorRequest_UnanimousNotification
                    \<lparr>un_Accepted = True,
                     un_Signatures = [Some (toWire ownSig), Some sigA, Some sigB]\<rparr>\<rparr>,
       Bot_ConfirmOffchainUnanimousAssertion
         \<lparr>rd_BeforeHash = 1, rd_BeforeInbox = 2, rd_SequenceNum = 0, rd_TimeBounds = 3\<rparr>
         [ownSig, fromWire sigA, fromWire sigB]],
      Returns (True, None), [])"
    by (simp add: initiateUnanimousAssertionImpl_def inner_initiateUnanimousAssertionImpl_def
        unanimousAfterRequest_def unanimousFinish_def gatherSignatures_def env0_def val3_def
        queue2_def ValidatorCount_def indexNum_def unanimousResponse_def forceOnchain_def
        hashCall_def rejected_def notifyUnanimous_def unanimousRequest_def queue_after_def
        numeral_3_eq_3 numeral_2_eq_2)
  from outgoing_messages_force_final[OF run1 r1] outgoing_messages_force_final[OF run2 r2] run1 run2
  show ?thesis by simp
qed

subsection \<open>The map of pending rounds\<close>

lemma broadcastTo_responses:
  "broadcastTo message cs m = Some m' \<Longrightarrow> cm_responses m' = cm_responses m"
  by (induction cs arbitrary: m) (auto split: if_splits)

lemma cm_step_responses:
  "cm_step n m ev = Next m' \<Longrightarrow>
     cm_responses m' =
       (case ev of
          SigRequestEv request responseChan requestID \<Rightarrow> (cm_responses m)(requestID \<mapsto> responseChan)
        | _ \<Rightarrow> cm_responses m)"
  by (cases ev) (auto split: if_splits option.splits list.splits dest: broadcastTo_responses)

lemma Run_responses_dom:
  "Run n m evs = Next m' \<Longrightarrow> dom (cm_responses m) \<subseteq> dom (cm_responses m')"
proof (induction evs arbitrary: m)
  case Nil
  then show ?case by simp
next
  case (Cons ev evs)
  then obtain m1 where s: "cm_step n m ev = Next m1" and r: "Run n m1 evs = Next m'"
    by (auto split: cm_result.splits)
  from cm_step_responses[OF s] have "dom (cm_responses m) \<subseteq> dom (cm_responses m1)"
    by (cases ev) auto
  with Cons.IH[OF r] show ?case by blast
qed

text \<open>
  C9. The claim as stated fails. With two validators, a signature request registers
  its response channel under digest 5; the one follower's response is delivered and
  \<open>gatherSignatures\<close> returns with it, so the round is complete, and the map still holds
  the channel under 5. The same holds after a timeout, of which the manager's loop
  never hears, and after the follower has come and gone.
\<close>

theorem pending_entry_kept_counterexample:
  "Run 2 NewClientManager
     [SigRequestEv createRequest3 1 5, BroadcastEv, AggResponseEv (createResponse 11 True sigA)] =
     Next (NewClientManager
             \<lparr>cm_responses := [5 \<mapsto> 1],
              cm_sinks := (cm_sinks NewClientManager)(1 := [createResponse 11 True sigA])\<rparr>) \<and>
   gatherLoop (2 - 1) [] [ResponseEv (createResponse 11 True sigA)] =
     Some [createResponse 11 True sigA] \<and>
   gatherLoop (2 - 1) [] [TimerEv] = Some [] \<and>
   Run 2 NewClientManager
     [SigRequestEv createRequest3 1 5, BroadcastEv, RegisterEv 4, UnregisterEv 4] =
     Next (NewClientManager
             \<lparr>cm_closed := (cm_closed NewClientManager)(4 := True),
              cm_signalled := [],
              cm_responses := [5 \<mapsto> 1]\<rparr>)"
  by (simp add: NewClientManager_def createResponse_def createRequest3_def)

text \<open>
  C9, as amended. An entry of the map of pending rounds is never removed: the only
  event whose handler changes the map is a signature request, which stores its response
  channel under its digest (replacing the channel of an earlier request with the same
  digest); so every digest ever registered stays in the map however long the loop runs.
\<close>

theorem pending_entries_never_removed:
  "(cm_step n m ev = Next m' \<longrightarrow>
      cm_responses m' =
        (case ev of
           SigRequestEv request responseChan requestID \<Rightarrow>
             (cm_responses m)(requestID \<mapsto> responseChan)
         | _ \<Rightarrow> cm_responses m)) \<and>
   (Run n m evs = Next m'' \<longrightarrow> dom (cm_responses m) \<subseteq> dom (cm_responses m''))"
  using cm_step_responses Run_responses_dom by blast

theorem pending_entries_never_removed_witness:
  "cm_step 2 NewClientManager
     (SigRequestEv createRequest3 1 5) =
     Next (NewClientManager
            \<lparr>cm_broadcast := [createRequest3],
             cm_responses := [5 \<mapsto> 1]\<rparr>) \<and>
   Run 2 (NewClientManager
            \<lparr>cm_broadcast := [createRequest3],
             cm_responses := [5 \<mapsto> 1]\<rparr>)
     [BroadcastEv, AggResponseEv (createResponse 11 True sigA)] =
     Next (NewClientManager
            \<lparr>cm_responses := [5 \<mapsto> 1],
             cm_sinks := (\<lambda>c. [])(1 := [createResponse 11 True sigA])\<rparr>) \<and>
   dom [5 \<mapsto> (1::nat)] \<subseteq>
     dom (cm_responses (NewClientManager
            \<lparr>cm_responses := [5 \<mapsto> 1],
             cm_sinks := (\<lambda>c. [])(1 := [createResponse 11 True sigA])\<rparr>))"
  using pending_entries_never_removed
    [where n = 2 and m = NewClientManager
       and ev = "SigRequestEv createRequest3 1 5"
       and m' = "NewClientManager
            \<lparr>cm_broadcast := [createRequest3],
             cm_responses := [5 \<mapsto> 1]\<rparr>"
       and evs = "[]" and m'' = NewClientManager]
    pending_entries_never_removed
    [where n = 2 and m = "NewClientManager
            \<lparr>cm_broadcast := [createRequest3],
             cm_responses := [5 \<mapsto> 1]\<rparr>"
       and ev = BroadcastEv
       and m' = "NewClientManager\<lparr>cm_responses := [5 \<mapsto> 1]\<rparr>"
       and evs = "[BroadcastEv, AggResponseEv (createResponse 11 True sigA)]"
       and m'' = "NewClientManager
            \<lparr>cm_responses := [5 \<mapsto> 1],
             cm_sinks := (\<lambda>c. [])(1 := [createResponse 11 True sigA])\<rparr>"]
  by (simp add: NewClientManager_def createResponse_def createRequest3_def)

subsection \<open>The signature vector\<close>

lemma responders_indices:
  assumes df: "distinct (map fst vals)" and ds: "distinct (map snd vals)"
      and bound: "\<forall>i\<in>set (map snd vals). i < length vals"
      and own: "own \<in> fst ` set vals"
      and followers: "lfr_address ` set responses \<subseteq> fst ` set vals - {own}"
      and dist: "distinct (map lfr_address responses)"
      and count: "int (length responses) = int (length vals) - 1"
  shows "\<forall>r\<in>set responses. indexNum vals (lfr_address r) < length vals"
    and "distinct (map (\<lambda>r. indexNum vals (lfr_address r)) responses)"
    and "indexNum vals own < length vals"
    and "indexNum vals own \<notin> (\<lambda>r. indexNum vals (lfr_address r)) ` set responses"
    and "\<forall>i<length vals. i = indexNum vals own \<or>
           i \<in> (\<lambda>r. indexNum vals (lfr_address r)) ` set responses"
proof -
  have inj: "inj_on (indexNum vals) (fst ` set vals)" by (rule indexNum_inj[OF df ds])
  show "\<forall>r\<in>set responses. indexNum vals (lfr_address r) < length vals"
    using followers indexNum_bound[OF df bound] by blast
  from dist have d: "distinct responses" "inj_on lfr_address (set responses)"
    by (simp_all add: distinct_map)
  have "inj_on (indexNum vals) (lfr_address ` set responses)"
    using followers by (intro inj_on_subset[OF inj]) auto
  from comp_inj_on[OF d(2) this] d(1)
  have "distinct (map (indexNum vals \<circ> lfr_address) responses)"
    by (simp add: distinct_map)
  then show "distinct (map (\<lambda>r. indexNum vals (lfr_address r)) responses)"
    by (simp add: comp_def)
  show "indexNum vals own < length vals" by (rule indexNum_bound[OF df bound own])
  show "indexNum vals own \<notin> (\<lambda>r. indexNum vals (lfr_address r)) ` set responses"
  proof
    assume "indexNum vals own \<in> (\<lambda>r. indexNum vals (lfr_address r)) ` set responses"
    then obtain r where r: "r \<in> set responses" and eq: "indexNum vals own = indexNum vals (lfr_address r)"
      by auto
    from r followers have mem: "lfr_address r \<in> fst ` set vals" and ne: "lfr_address r \<noteq> own"
      by auto
    from inj_onD[OF inj eq own mem] ne show False by simp
  qed
  have card: "card (lfr_address ` set responses) = length vals - 1"
    using distinct_card[OF dist] count by simp
  show "\<forall>i<length vals. i = indexNum vals own \<or>
           i \<in> (\<lambda>r. indexNum vals (lfr_address r)) ` set responses"
  proof (intro allI impI)
    fix i assume "i < length vals"
    from all_indices_covered[OF df ds bound followers own card this]
    show "i = indexNum vals own \<or> i \<in> (\<lambda>r. indexNum vals (lfr_address r)) ` set responses"
      by auto
  qed
qed

lemma createVM_assembled:
  assumes df: "distinct (map fst (Validators val))"
      and ds: "distinct (map snd (Validators val))"
      and bound: "\<forall>i\<in>set (map snd (Validators val)). i < length (Validators val)"
      and own: "Address val \<in> fst ` set (Validators val)"
      and gathered: "gatherLoop (ValidatorCount val - 1) [] (followerEvents env) = Some responses"
      and count: "int (length responses) = ValidatorCount val - 1"
      and followers: "lfr_address ` set responses \<subseteq> fst ` set (Validators val) - {Address val}"
      and dist: "distinct (map lfr_address responses)"
      and wait: "WaitForFollowers env"
      and sign: "Sign env (CreateVMHash env (createData val env)) = Inr sg"
      and accepted: "\<forall>r\<in>set responses. \<exists>s. fr_Response (lfr_response r) = FollowerResponse_Create True (Some s)"
  shows "\<exists>signatures pre.
           createVMImpl val env =
             (pre @ [Val_CreateVM (createData val env) signatures], Returns (True, CreateVM env)) \<and>
           int (length signatures) = ValidatorCount val \<and>
           signatures ! indexNum (Validators val) (Address val) = sg \<and>
           (\<forall>r\<in>set responses. \<forall>s.
              fr_Response (lfr_response r) = FollowerResponse_Create True (Some s) \<longrightarrow>
              signatures ! indexNum (Validators val) (lfr_address r) = fromWire s) \<and>
           (\<forall>i<length signatures.
              i = indexNum (Validators val) (Address val) \<or>
              i \<in> (\<lambda>r. indexNum (Validators val) (lfr_address r)) ` set responses)"
proof -
  let ?vals = "Validators val"
  let ?n = "length ?vals"
  let ?own = "indexNum ?vals (Address val)"
  let ?sigs0 = "(replicate ?n zeroSignature)[?own := sg]"
  have count': "int (length responses) = int ?n - 1"
    using count by (simp add: ValidatorCount_def)
  note idx = responders_indices[OF df ds bound own followers dist count']
  have in_range: "\<forall>r\<in>set responses. indexNum ?vals (lfr_address r) < length ?sigs0"
    using idx(1) by simp
  from createSignatures_distinct[OF accepted in_range idx(2)] obtain signatures where
    run: "createSignatures ?vals ?sigs0 responses = Inr signatures" and
    len: "length signatures = length ?sigs0" and
    at: "\<forall>r\<in>set responses. \<forall>s.
              fr_Response (lfr_response r) = FollowerResponse_Create True (Some s) \<longrightarrow>
              signatures ! indexNum ?vals (lfr_address r) = fromWire s" and
    other: "\<forall>i. i \<notin> (\<lambda>r. indexNum ?vals (lfr_address r)) ` set responses \<longrightarrow>
              signatures ! i = ?sigs0 ! i"
    by blast
  have ownslot: "signatures ! ?own = sg"
    using other idx(3,4) by simp
  have fin: "createFinish val env responses =
      ([Val_Sign (CreateVMHash env (createData val env)),
        Val_CreateVM (createData val env) signatures], Returns (True, CreateVM env))"
    using idx(3) sign run by (simp add: createFinish_def ValidatorCount_def)
  have nonneg: "\<not> ValidatorCount val - 1 < 0" using count by linarith
  have "createVMImpl val env =
      ([Bot_RequestVMState,
        SigRequest \<lparr>vr_RequestId = None, vr_Request = ValidatorRequest_Create (createData val env)\<rparr>
          (CreateVMHash env (createData val env)),
        Val_Sign (CreateVMHash env (createData val env))] @
       [Val_CreateVM (createData val env) signatures], Returns (True, CreateVM env))"
    using wait gathered count fin nonneg by (simp add: createVMImpl_def gatherSignatures_def)
  moreover have "int (length signatures) = ValidatorCount val"
    using len by (simp add: ValidatorCount_def)
  moreover have "\<forall>i<length signatures.
              i = ?own \<or> i \<in> (\<lambda>r. indexNum ?vals (lfr_address r)) ` set responses"
    using idx(5) len by simp
  ultimately show ?thesis using ownslot at by blast
qed

lemma unanimous_assembled:
  assumes df: "distinct (map fst (Validators val))"
      and ds: "distinct (map snd (Validators val))"
      and bound: "\<forall>i\<in>set (map snd (Validators val)). i < length (Validators val)"
      and own: "Address val \<in> fst ` set (Validators val)"
      and gathered: "gatherLoop (ValidatorCount val - 1) [] (followerEvents env) = Some responses"
      and count: "int (length responses) = ValidatorCount val - 1"
      and followers: "lfr_address ` set responses \<subseteq> fst ` set (Validators val) - {Address val}"
      and dist: "distinct (map lfr_address responses)"
      and request: "InitiateUnanimousRequest_request env = Inr unanRequest"
      and inrange: "length (rq_NewMessages unanRequest) \<le> length queuedMessages"
      and results: "InitiateUnanimousRequest_results env = Inr unanUpdate"
      and hash: "UnanimousAssertHash env
         (uu_SequenceNum (forceOnchain unanUpdate)) (uu_BeforeHash (forceOnchain unanUpdate))
         (uu_TimeBounds (forceOnchain unanUpdate)) (uu_NewInboxHash (forceOnchain unanUpdate))
         (uu_OriginalInboxHash (forceOnchain unanUpdate))
         (uu_Assertion (forceOnchain unanUpdate)) = Inr unanHash"
      and sign: "Sign env unanHash = Inr sg"
      and accepted: "\<forall>r\<in>set responses. \<exists>s.
           fr_Response (lfr_response r) = FollowerResponse_Unanimous True (Some s) unanHash"
  shows "\<exists>signatures rawSignatures pre.
           fst (inner_initiateUnanimousAssertionImpl val env queuedMessages forceFinal) =
             pre @ [notifyUnanimous (RequestHash env unanRequest)
                      \<lparr>un_Accepted = True, un_Signatures = rawSignatures\<rparr>,
                    Bot_ConfirmOffchainUnanimousAssertion (rq_Data unanRequest) signatures] \<and>
           int (length signatures) = ValidatorCount val \<and>
           length rawSignatures = length signatures \<and>
           signatures ! indexNum (Validators val) (Address val) = sg \<and>
           rawSignatures ! indexNum (Validators val) (Address val) = Some (toWire sg) \<and>
           (\<forall>r\<in>set responses. \<forall>s.
              fr_Response (lfr_response r) = FollowerResponse_Unanimous True (Some s) unanHash \<longrightarrow>
              signatures ! indexNum (Validators val) (lfr_address r) = fromWire s \<and>
              rawSignatures ! indexNum (Validators val) (lfr_address r) = Some s) \<and>
           (\<forall>i<length signatures.
              i = indexNum (Validators val) (Address val) \<or>
              i \<in> (\<lambda>r. indexNum (Validators val) (lfr_address r)) ` set responses)"
proof -
  let ?vals = "Validators val"
  let ?n = "length ?vals"
  let ?own = "indexNum ?vals (Address val)"
  let ?sigs0 = "(replicate ?n zeroSignature)[?own := sg]"
  let ?raws0 = "(replicate ?n None)[?own := Some (toWire sg)]"
  let ?hashId = "RequestHash env unanRequest"
  have count': "int (length responses) = int ?n - 1"
    using count by (simp add: ValidatorCount_def)
  note idx = responders_indices[OF df ds bound own followers dist count']
  have in_range: "\<forall>r\<in>set responses. indexNum ?vals (lfr_address r) < length ?sigs0"
    using idx(1) by simp
  have same_len: "length ?raws0 = length ?sigs0" by simp
  from unanimousSignatures_distinct[OF accepted in_range same_len idx(2)]
  obtain signatures rawSignatures where
    run: "unanimousSignatures ?vals unanHash ?sigs0 ?raws0 responses = Inr (signatures, rawSignatures)" and
    len: "length signatures = length ?sigs0" "length rawSignatures = length ?raws0" and
    at: "\<forall>r\<in>set responses. \<forall>s.
              fr_Response (lfr_response r) = FollowerResponse_Unanimous True (Some s) unanHash \<longrightarrow>
              signatures ! indexNum ?vals (lfr_address r) = fromWire s \<and>
              rawSignatures ! indexNum ?vals (lfr_address r) = Some s" and
    other: "\<forall>i. i \<notin> (\<lambda>r. indexNum ?vals (lfr_address r)) ` set responses \<longrightarrow>
              signatures ! i = ?sigs0 ! i \<and> rawSignatures ! i = ?raws0 ! i"
    by blast
  have ownslot: "signatures ! ?own = sg" "rawSignatures ! ?own = Some (toWire sg)"
    using other idx(3,4) by simp_all
  let ?r = "case ConfirmOffchainUnanimousAssertion env of
              Some err \<Rightarrow> Returns (False, Some err)
            | None \<Rightarrow> Returns (uu_SequenceNum (forceOnchain unanUpdate) = - 1, None)"
  have fin: "unanimousFinish val env unanRequest ?hashId (forceOnchain unanUpdate) unanHash sg responses =
      ([notifyUnanimous ?hashId \<lparr>un_Accepted = True, un_Signatures = rawSignatures\<rparr>,
        Bot_ConfirmOffchainUnanimousAssertion (rq_Data unanRequest) signatures], ?r)"
    using idx(3) count run by (simp add: unanimousFinish_def ValidatorCount_def)
  have after: "unanimousAfterRequest val env unanRequest ?hashId (Returns responses) =
      ([hashCall (forceOnchain unanUpdate), Val_Sign unanHash,
        notifyUnanimous ?hashId \<lparr>un_Accepted = True, un_Signatures = rawSignatures\<rparr>,
        Bot_ConfirmOffchainUnanimousAssertion (rq_Data unanRequest) signatures], ?r)"
    using results hash sign fin by (simp add: unanimousAfterRequest_def)
  have nonneg: "\<not> ValidatorCount val - 1 < 0" using count by linarith
  have "fst (inner_initiateUnanimousAssertionImpl val env queuedMessages forceFinal) =
      [Bot_InitiateUnanimousRequest 10000 (map om_Message queuedMessages) forceFinal,
       SigRequest
         \<lparr>vr_RequestId = Some ?hashId,
          vr_Request = ValidatorRequest_Unanimous
            (unanimousRequest unanRequest
               (map2 (\<lambda>msg q. \<lparr>sm_Message = msg, sm_Signature = om_Signature q\<rparr>)
                  (rq_NewMessages unanRequest) queuedMessages))\<rparr> ?hashId,
       hashCall (forceOnchain unanUpdate), Val_Sign unanHash] @
      [notifyUnanimous ?hashId \<lparr>un_Accepted = True, un_Signatures = rawSignatures\<rparr>,
       Bot_ConfirmOffchainUnanimousAssertion (rq_Data unanRequest) signatures]"
    using request inrange gathered nonneg after
    by (simp add: inner_initiateUnanimousAssertionImpl_def gatherSignatures_def
        buildRequestMessages_eq)
  then have "\<exists>pre. fst (inner_initiateUnanimousAssertionImpl val env queuedMessages forceFinal) =
      pre @ [notifyUnanimous ?hashId \<lparr>un_Accepted = True, un_Signatures = rawSignatures\<rparr>,
             Bot_ConfirmOffchainUnanimousAssertion (rq_Data unanRequest) signatures]"
    by blast
  moreover have "int (length signatures) = ValidatorCount val"
    using len by (simp add: ValidatorCount_def)
  moreover have "length rawSignatures = length signatures" using len by simp
  moreover have "\<forall>i<length signatures.
              i = ?own \<or> i \<in> (\<lambda>r. indexNum ?vals (lfr_address r)) ` set responses"
    using idx(5) len by simp
  ultimately show ?thesis using ownslot at by blast
qed

text \<open>
  C1. The claim as stated fails. With three validators, two responses arrive, both
  accepted and both from the follower at index 1, with different signatures;
  \<open>gatherSignatures\<close> returns them as the N - 1 responses it waited for and
  \<open>createVMImpl\<close> calls \<open>CreateVM\<close>. The vector it passes has length 3, but the first
  response's signature is not at its sender's index (the second overwrote it) and the
  slot of index 2 still holds the zero value \<open>make\<close> put there: the round is finalized
  with two signatures.
\<close>

theorem signature_vector_counterexample:
  "gatherLoop (ValidatorCount val3 - 1) []
     [ResponseEv (createResponse 11 True sigA), ResponseEv (createResponse 11 True sigB)] =
     Some [createResponse 11 True sigA, createResponse 11 True sigB] \<and>
   createVMImpl val3
     (env0\<lparr>followerEvents :=
        [ResponseEv (createResponse 11 True sigA), ResponseEv (createResponse 11 True sigB)]\<rparr>) =
     ([Bot_RequestVMState, SigRequest createRequest3 5, Val_Sign 5,
       Val_CreateVM \<lparr>cv_Config = 3, cv_VmId = 7, cv_VmState = 4, cv_ChallengeManagerNum = 0\<rparr>
         [ownSig, fromWire sigB, zeroSignature]],
      Returns (True, None)) \<and>
   indexNum (Validators val3) 11 = 1 \<and>
   fromWire sigA \<noteq> fromWire sigB \<and>
   fromWire sigA \<noteq> zeroSignature"
proof -
  have a: "gatherLoop (ValidatorCount val3 - 1) []
     [ResponseEv (createResponse 11 True sigA), ResponseEv (createResponse 11 True sigB)] =
     Some [createResponse 11 True sigA, createResponse 11 True sigB]"
    by (simp add: val3_def ValidatorCount_def)
  have b: "createVMImpl val3
     (env0\<lparr>followerEvents :=
        [ResponseEv (createResponse 11 True sigA), ResponseEv (createResponse 11 True sigB)]\<rparr>) =
     ([Bot_RequestVMState, SigRequest createRequest3 5, Val_Sign 5,
       Val_CreateVM \<lparr>cv_Config = 3, cv_VmId = 7, cv_VmState = 4, cv_ChallengeManagerNum = 0\<rparr>
         [ownSig, fromWire sigB, zeroSignature]],
      Returns (True, None))"
    by (simp add: createVMImpl_def env0_def val3_def gatherSignatures_def ValidatorCount_def
      createFinish_def createData_def indexNum_def createResponse_def createRequest3_def
      numeral_3_eq_3)
  have c: "indexNum (Validators val3) 11 = 1"
    by (simp add: val3_def indexNum_def)
  have d: "fromWire sigA \<noteq> fromWire sigB" "fromWire sigA \<noteq> zeroSignature"
    by (simp_all add: fromWire_def sigA_def sigB_def zeroSignature_def)
  from a b c d show ?thesis by simp
qed

text \<open>
  C1, as amended. Let the validators' indices be distinct and below N, and let the N - 1
  responses gathered come from N - 1 different followers of the validator set, none
  under the coordinator's own address. If all of them accept (in the unanimous round:
  accept with the coordinator's assertion hash) and the steps before the assembly
  succeed, then \<open>createVMImpl\<close> ends with the call of \<open>CreateVM\<close>, and
  \<open>_initiateUnanimousAssertionImpl\<close> comes to the call of
  \<open>ConfirmOffchainUnanimousAssertion\<close>, with a signature vector of length N that holds
  the coordinator's signature at the coordinator's index and each follower's signature
  at that follower's index, every slot being one of these; the vector of raw signatures
  broadcast with the acceptance is filled in the same way.
\<close>

theorem signature_vector_assembled:
  assumes "distinct (map fst (Validators val))"
      and "distinct (map snd (Validators val))"
      and "\<forall>i\<in>set (map snd (Validators val)). i < length (Validators val)"
      and "Address val \<in> fst ` set (Validators val)"
      and "gatherLoop (ValidatorCount val - 1) [] (followerEvents env) = Some responses"
      and "int (length responses) = ValidatorCount val - 1"
      and "lfr_address ` set responses \<subseteq> fst ` set (Validators val) - {Address val}"
      and "distinct (map lfr_address responses)"
  shows
    "(WaitForFollowers env \<longrightarrow>
      Sign env (CreateVMHash env (createData val env)) = Inr sg \<longrightarrow>
      (\<forall>r\<in>set responses. \<exists>s.
         fr_Response (lfr_response r) = FollowerResponse_Create True (Some s)) \<longrightarrow>
      (\<exists>signatures pre.
         createVMImpl val env =
           (pre @ [Val_CreateVM (createData val env) signatures], Returns (True, CreateVM env)) \<and>
         int (length signatures) = ValidatorCount val \<and>
         signatures ! indexNum (Validators val) (Address val) = sg \<and>
         (\<forall>r\<in>set responses. \<forall>s.
            fr_Response (lfr_response r) = FollowerResponse_Create True (Some s) \<longrightarrow>
            signatures ! indexNum (Validators val) (lfr_address r) = fromWire s) \<and>
         (\<forall>i<length signatures.
            i = indexNum (Validators val) (Address val) \<or>
            i \<in> (\<lambda>r. indexNum (Validators val) (lfr_address r)) ` set responses))) \<and>
     (InitiateUnanimousRequest_request env = Inr unanRequest \<longrightarrow>
      length (rq_NewMessages unanRequest) \<le> length queuedMessages \<longrightarrow>
      InitiateUnanimousRequest_results env = Inr unanUpdate \<longrightarrow>
      UnanimousAssertHash env
         (uu_SequenceNum (forceOnchain unanUpdate)) (uu_BeforeHash (forceOnchain unanUpdate))
         (uu_TimeBounds (forceOnchain unanUpdate)) (uu_NewInboxHash (forceOnchain unanUpdate))
         (uu_OriginalInboxHash (forceOnchain unanUpdate))
         (uu_Assertion (forceOnchain unanUpdate)) = Inr unanHash \<longrightarrow>
      Sign env unanHash = Inr sg' \<longrightarrow>
      (\<forall>r\<in>set responses. \<exists>s.
         fr_Response (lfr_response r) = FollowerResponse_Unanimous True (Some s) unanHash) \<longrightarrow>
      (\<exists>signatures rawSignatures pre.
         fst (inner_initiateUnanimousAssertionImpl val env queuedMessages forceFinal) =
           pre @ [notifyUnanimous (RequestHash env unanRequest)
                    \<lparr>un_Accepted = True, un_Signatures = rawSignatures\<rparr>,
                  Bot_ConfirmOffchainUnanimousAssertion (rq_Data unanRequest) signatures] \<and>
         int (length signatures) = ValidatorCount val \<and>
         length rawSignatures = length signatures \<and>
         signatures ! indexNum (Validators val) (Address val) = sg' \<and>
         rawSignatures ! indexNum (Validators val) (Address val) = Some (toWire sg') \<and>
         (\<forall>r\<in>set responses. \<forall>s.
            fr_Response (lfr_response r) = FollowerResponse_Unanimous True (Some s) unanHash \<longrightarrow>
            signatures ! indexNum (Validators val) (lfr_address r) = fromWire s \<and>
            rawSignatures ! indexNum (Validators val) (lfr_address r) = Some s) \<and>
         (\<forall>i<length signatures.
            i = indexNum (Validators val) (Address val) \<or>
            i \<in> (\<lambda>r. indexNum (Validators val) (lfr_address r)) ` set responses)))"
proof (intro conjI impI)
  assume "WaitForFollowers env"
    and "Sign env (CreateVMHash env (createData val env)) = Inr sg"
    and "\<forall>r\<in>set responses. \<exists>s.
         fr_Response (lfr_response r) = FollowerResponse_Create True (Some s)"
  from createVM_assembled[OF assms this]
  show "\<exists>signatures pre.
         createVMImpl val env =
           (pre @ [Val_CreateVM (createData val env) signatures], Returns (True, CreateVM env)) \<and>
         int (length signatures) = ValidatorCount val \<and>
         signatures ! indexNum (Validators val) (Address val) = sg \<and>
         (\<forall>r\<in>set responses. \<forall>s.
            fr_Response (lfr_response r) = FollowerResponse_Create True (Some s) \<longrightarrow>
            signatures ! indexNum (Validators val) (lfr_address r) = fromWire s) \<and>
         (\<forall>i<length signatures.
            i = indexNum (Validators val) (Address val) \<or>
            i \<in> (\<lambda>r. indexNum (Validators val) (lfr_address r)) ` set responses)" .
next
  assume "InitiateUnanimousRequest_request env = Inr unanRequest"
    and "length (rq_NewMessages unanRequest) \<le> length queuedMessages"
    and "InitiateUnanimousRequest_results env = Inr unanUpdate"
    and "UnanimousAssertHash env
         (uu_SequenceNum (forceOnchain unanUpdate)) (uu_BeforeHash (forceOnchain unanUpdate))
         (uu_TimeBounds (forceOnchain unanUpdate)) (uu_NewInboxHash (forceOnchain unanUpdate))
         (uu_OriginalInboxHash (forceOnchain unanUpdate))
         (uu_Assertion (forceOnchain unanUpdate)) = Inr unanHash"
    and "Sign env unanHash = Inr sg'"
    and "\<forall>r\<in>set responses. \<exists>s.
         fr_Response (lfr_response r) = FollowerResponse_Unanimous True (Some s) unanHash"
  from unanimous_assembled[OF assms this]
  show "\<exists>signatures rawSignatures pre.
         fst (inner_initiateUnanimousAssertionImpl val env queuedMessages forceFinal) =
           pre @ [notifyUnanimous (RequestHash env unanRequest)
                    \<lparr>un_Accepted = True, un_Signatures = rawSignatures\<rparr>,
                  Bot_ConfirmOffchainUnanimousAssertion (rq_Data unanRequest) signatures] \<and>
         int (length signatures) = ValidatorCount val \<and>
         length rawSignatures = length signatures \<and>
         signatures ! indexNum (Validators val) (Address val) = sg' \<and>
         rawSignatures ! indexNum (Validators val) (Address val) = Some (toWire sg') \<and>
         (\<forall>r\<in>set responses. \<forall>s.
            fr_Response (lfr_response r) = FollowerResponse_Unanimous True (Some s) unanHash \<longrightarrow>
            signatures ! indexNum (Validators val) (lfr_address r) = fromWire s \<and>
            rawSignatures ! indexNum (Validators val) (lfr_address r) = Some s) \<and>
         (\<forall>i<length signatures.
            i = indexNum (Validators val) (Address val) \<or>
            i \<in> (\<lambda>r. indexNum (Validators val) (lfr_address r)) ` set responses)" .
qed

theorem signature_vector_assembled_witness:
  "createVMImpl val3
     (env0\<lparr>followerEvents :=
        [ResponseEv (createResponse 12 True sigB), ResponseEv (createResponse 11 True sigA)]\<rparr>) =
     ([Bot_RequestVMState, SigRequest createRequest3 5, Val_Sign 5,
       Val_CreateVM \<lparr>cv_Config = 3, cv_VmId = 7, cv_VmState = 4, cv_ChallengeManagerNum = 0\<rparr>
         [ownSig, fromWire sigA, fromWire sigB]],
      Returns (True, None)) \<and>
   fst (inner_initiateUnanimousAssertionImpl val3
     (env0\<lparr>followerEvents :=
        [ResponseEv (unanimousResponse 12 True sigB 8), ResponseEv (unanimousResponse 11 True sigA 8)]\<rparr>)
     queue2 False) =
     [Bot_InitiateUnanimousRequest 10000 [40, 41] False,
      SigRequest
        \<lparr>vr_RequestId = Some 6,
         vr_Request = ValidatorRequest_Unanimous
           \<lparr>ur_BeforeHash = 1, ur_BeforeInbox = 2, ur_SequenceNum = 0, ur_TimeBounds = 3,
            ur_SignedMessages =
              [\<lparr>sm_Message = 40, sm_Signature = [1]\<rparr>, \<lparr>sm_Message = 41, sm_Signature = [2]\<rparr>]\<rparr>\<rparr> 6,
      Val_UnanimousAssertHash 0 1 3 8 2 \<lparr>as_AfterHash = 11, as_OutMsgs = []\<rparr>,
      Val_Sign 8,
      Broadcast \<lparr>vr_RequestId = Some 6,
                 vr_Request = ValidatorRequest_UnanimousNotification
                   \<lparr>un_Accepted = True,
                    un_Signatures = [Some (toWire ownSig), Some sigA, Some sigB]\<rparr>\<rparr>,
      Bot_ConfirmOffchainUnanimousAssertion
        \<lparr>rd_BeforeHash = 1, rd_BeforeInbox = 2, rd_SequenceNum = 0, rd_TimeBounds = 3\<rparr>
        [ownSig, fromWire sigA, fromWire sigB]] \<and>
   (\<exists>signatures pre.
      createVMImpl val3
        (env0\<lparr>followerEvents :=
           [ResponseEv (createResponse 12 True sigB), ResponseEv (createResponse 11 True sigA)]\<rparr>) =
        (pre @ [Val_CreateVM
                  (createData val3
                     (env0\<lparr>followerEvents :=
                        [ResponseEv (createResponse 12 True sigB),
                         ResponseEv (createResponse 11 True sigA)]\<rparr>)) signatures],
         Returns (True, None)) \<and>
      int (length signatures) = ValidatorCount val3 \<and>
      signatures ! indexNum (Validators val3) (Address val3) = ownSig) \<and>
   (\<exists>signatures rawSignatures pre.
      fst (inner_initiateUnanimousAssertionImpl val3
        (env0\<lparr>followerEvents :=
           [ResponseEv (unanimousResponse 12 True sigB 8),
            ResponseEv (unanimousResponse 11 True sigA 8)]\<rparr>) queue2 False) =
        pre @ [notifyUnanimous 6 \<lparr>un_Accepted = True, un_Signatures = rawSignatures\<rparr>,
               Bot_ConfirmOffchainUnanimousAssertion
                 \<lparr>rd_BeforeHash = 1, rd_BeforeInbox = 2, rd_SequenceNum = 0, rd_TimeBounds = 3\<rparr>
                 signatures] \<and>
      int (length signatures) = ValidatorCount val3 \<and>
      signatures ! indexNum (Validators val3) (Address val3) = ownSig \<and>
      rawSignatures ! indexNum (Validators val3) (Address val3) = Some (toWire ownSig))"
proof -
  let ?envC = "env0\<lparr>followerEvents :=
        [ResponseEv (createResponse 12 True sigB), ResponseEv (createResponse 11 True sigA)]\<rparr>"
  let ?rsC = "[createResponse 12 True sigB, createResponse 11 True sigA]"
  let ?envU = "env0\<lparr>followerEvents :=
        [ResponseEv (unanimousResponse 12 True sigB 8), ResponseEv (unanimousResponse 11 True sigA 8)]\<rparr>"
  let ?rsU = "[unanimousResponse 12 True sigB 8, unanimousResponse 11 True sigA 8]"
  have h1: "distinct (map fst (Validators val3))" by (simp add: val3_def)
  have h2: "distinct (map snd (Validators val3))" by (simp add: val3_def)
  have h3: "\<forall>i\<in>set (map snd (Validators val3)). i < length (Validators val3)"
    by (simp add: val3_def)
  have h4: "Address val3 \<in> fst ` set (Validators val3)" by (simp add: val3_def)
  have gC: "gatherLoop (ValidatorCount val3 - 1) [] (followerEvents ?envC) = Some ?rsC"
    by (simp add: val3_def ValidatorCount_def)
  have cC: "int (length ?rsC) = ValidatorCount val3 - 1"
    by (simp add: val3_def ValidatorCount_def)
  have fC: "lfr_address ` set ?rsC \<subseteq> fst ` set (Validators val3) - {Address val3}"
    by (simp add: val3_def createResponse_def)
  have dC: "distinct (map lfr_address ?rsC)" by (simp add: createResponse_def)
  have gU: "gatherLoop (ValidatorCount val3 - 1) [] (followerEvents ?envU) = Some ?rsU"
    by (simp add: val3_def ValidatorCount_def)
  have cU: "int (length ?rsU) = ValidatorCount val3 - 1"
    by (simp add: val3_def ValidatorCount_def)
  have fU: "lfr_address ` set ?rsU \<subseteq> fst ` set (Validators val3) - {Address val3}"
    by (simp add: val3_def unanimousResponse_def)
  have dU: "distinct (map lfr_address ?rsU)" by (simp add: unanimousResponse_def)
  have runC: "createVMImpl val3 ?envC =
     ([Bot_RequestVMState, SigRequest createRequest3 5, Val_Sign 5,
       Val_CreateVM \<lparr>cv_Config = 3, cv_VmId = 7, cv_VmState = 4, cv_ChallengeManagerNum = 0\<rparr>
         [ownSig, fromWire sigA, fromWire sigB]],
      Returns (True, None))"
    by (simp add: createVMImpl_def env0_def val3_def gatherSignatures_def ValidatorCount_def
      createFinish_def createData_def indexNum_def createResponse_def createRequest3_def
      numeral_3_eq_3 numeral_2_eq_2)
  have runU: "fst (inner_initiateUnanimousAssertionImpl val3 ?envU queue2 False) =
     [Bot_InitiateUnanimousRequest 10000 [40, 41] False,
      SigRequest
        \<lparr>vr_RequestId = Some 6,
         vr_Request = ValidatorRequest_Unanimous
           \<lparr>ur_BeforeHash = 1, ur_BeforeInbox = 2, ur_SequenceNum = 0, ur_TimeBounds = 3,
            ur_SignedMessages =
              [\<lparr>sm_Message = 40, sm_Signature = [1]\<rparr>, \<lparr>sm_Message = 41, sm_Signature = [2]\<rparr>]\<rparr>\<rparr> 6,
      Val_UnanimousAssertHash 0 1 3 8 2 \<lparr>as_AfterHash = 11, as_OutMsgs = []\<rparr>,
      Val_Sign 8,
      Broadcast \<lparr>vr_RequestId = Some 6,
                 vr_Request = ValidatorRequest_UnanimousNotification
                   \<lparr>un_Accepted = True,
                    un_Signatures = [Some (toWire ownSig), Some sigA, Some sigB]\<rparr>\<rparr>,
      Bot_ConfirmOffchainUnanimousAssertion
        \<lparr>rd_BeforeHash = 1, rd_BeforeInbox = 2, rd_SequenceNum = 0, rd_TimeBounds = 3\<rparr>
        [ownSig, fromWire sigA, fromWire sigB]]"
    by (simp add: inner_initiateUnanimousAssertionImpl_def
        unanimousAfterRequest_def unanimousFinish_def gatherSignatures_def env0_def val3_def
        queue2_def ValidatorCount_def indexNum_def unanimousResponse_def forceOnchain_def
        hashCall_def rejected_def notifyUnanimous_def unanimousRequest_def
        numeral_3_eq_3 numeral_2_eq_2)
  have wC: "WaitForFollowers ?envC" by (simp add: env0_def)
  have sC: "Sign ?envC (CreateVMHash ?envC (createData val3 ?envC)) = Inr ownSig"
    by (simp add: env0_def)
  have aC: "\<forall>r\<in>set ?rsC. \<exists>s.
         fr_Response (lfr_response r) = FollowerResponse_Create True (Some s)"
    by (simp add: createResponse_def)
  have noErr: "CreateVM ?envC = None" by (simp add: env0_def)
  from signature_vector_assembled[OF h1 h2 h3 h4 gC cC fC dC, THEN conjunct1,
         THEN mp, OF wC, THEN mp, OF sC, THEN mp, OF aC]
  have exC: "\<exists>signatures pre.
      createVMImpl val3 ?envC =
        (pre @ [Val_CreateVM (createData val3 ?envC) signatures], Returns (True, None)) \<and>
      int (length signatures) = ValidatorCount val3 \<and>
      signatures ! indexNum (Validators val3) (Address val3) = ownSig"
    unfolding noErr by blast
  let ?req = "\<lparr>rq_Data = \<lparr>rd_BeforeHash = 1, rd_BeforeInbox = 2, rd_SequenceNum = 0, rd_TimeBounds = 3\<rparr>,
             rq_NewMessages = [40, 41]\<rparr>"
  let ?upd = "\<lparr>uu_SequenceNum = 0, uu_BeforeHash = 1, uu_TimeBounds = 3, uu_NewInboxHash = 8,
             uu_OriginalInboxHash = 2, uu_Assertion = \<lparr>as_AfterHash = 11, as_OutMsgs = []\<rparr>\<rparr>"
  have rU: "InitiateUnanimousRequest_request ?envU = Inr ?req" by (simp add: env0_def)
  have lU: "length (rq_NewMessages ?req) \<le> length queue2" by (simp add: queue2_def)
  have uU: "InitiateUnanimousRequest_results ?envU = Inr ?upd" by (simp add: env0_def)
  have hU: "UnanimousAssertHash ?envU
         (uu_SequenceNum (forceOnchain ?upd)) (uu_BeforeHash (forceOnchain ?upd))
         (uu_TimeBounds (forceOnchain ?upd)) (uu_NewInboxHash (forceOnchain ?upd))
         (uu_OriginalInboxHash (forceOnchain ?upd))
         (uu_Assertion (forceOnchain ?upd)) = Inr 8"
    by (simp add: env0_def forceOnchain_def)
  have sU: "Sign ?envU 8 = Inr ownSig" by (simp add: env0_def)
  have aU: "\<forall>r\<in>set ?rsU. \<exists>s.
         fr_Response (lfr_response r) = FollowerResponse_Unanimous True (Some s) 8"
    by (simp add: unanimousResponse_def)
  have hid: "RequestHash ?envU ?req = 6" by (simp add: env0_def)
  from signature_vector_assembled[OF h1 h2 h3 h4 gU cU fU dU, THEN conjunct2,
         THEN mp, OF rU, THEN mp, OF lU, THEN mp, OF uU, THEN mp, OF hU, THEN mp, OF sU,
         THEN mp, OF aU, of False]
  have exU: "\<exists>signatures rawSignatures pre.
      fst (inner_initiateUnanimousAssertionImpl val3 ?envU queue2 False) =
        pre @ [notifyUnanimous 6 \<lparr>un_Accepted = True, un_Signatures = rawSignatures\<rparr>,
               Bot_ConfirmOffchainUnanimousAssertion
                 \<lparr>rd_BeforeHash = 1, rd_BeforeInbox = 2, rd_SequenceNum = 0, rd_TimeBounds = 3\<rparr>
                 signatures] \<and>
      int (length signatures) = ValidatorCount val3 \<and>
      signatures ! indexNum (Validators val3) (Address val3) = ownSig \<and>
      rawSignatures ! indexNum (Validators val3) (Address val3) = Some (toWire ownSig)"
    unfolding hid by (simp only: UnanimousRequest.simps) blast
  from runC runU exC exU show ?thesis by blast
qed

end
